theory Spec2Isabelle
  imports Complex_Main
begin

section \<open>Numbers\<close>

text \<open>
  A TypeScript \<open>number\<close> is modelled as a \<open>real\<close>: arithmetic is exact, and rounding,
  signed zero and a NaN or an infinity \<^emph>\<open>read from the input\<close> are outside the model.
  A division is the one place where the code itself can produce a value that is not
  finite, so the result of a division is a \<open>jsnum\<close>: \<open>x / 0\<close> is \<open>Infinity\<close>,
  \<open>-Infinity\<close> or \<open>NaN\<close> in JavaScript, and never HOL's \<open>x / 0 = 0\<close>.
\<close>

datatype jsnum = Num real | PosInf | NegInf | NaN

definition js_div :: "real \<Rightarrow> real \<Rightarrow> jsnum" where
  "js_div a b =
     (if b \<noteq> 0 then Num (a / b)
      else if 0 < a then PosInf
      else if a < 0 then NegInf
      else NaN)"

text \<open>
  \<open>x > y\<close>, and \<open>x <= y\<close>, \<open>x >= y\<close> with a finite right-hand side; every comparison with
  NaN is false.
\<close>

fun js_gt :: "jsnum \<Rightarrow> jsnum \<Rightarrow> bool" where
  "js_gt (Num x) (Num y) = (x > y)"
| "js_gt (Num x) NegInf = True"
| "js_gt PosInf (Num y) = True"
| "js_gt PosInf NegInf = True"
| "js_gt _ _ = False"

fun js_le :: "jsnum \<Rightarrow> real \<Rightarrow> bool" where
  "js_le (Num x) y = (x \<le> y)"
| "js_le PosInf y = False"
| "js_le NegInf y = True"
| "js_le NaN y = False"

fun js_ge :: "jsnum \<Rightarrow> real \<Rightarrow> bool" where
  "js_ge (Num x) y = (x \<ge> y)"
| "js_ge PosInf y = True"
| "js_ge NegInf y = False"
| "js_ge NaN y = False"

text \<open>\<open>x * 100\<close> and \<open>Math.abs(x)\<close> on a possibly non-finite value.\<close>

fun js_times100 :: "jsnum \<Rightarrow> jsnum" where
  "js_times100 (Num x) = Num (x * 100)"
| "js_times100 PosInf = PosInf"
| "js_times100 NegInf = NegInf"
| "js_times100 NaN = NaN"

fun js_abs :: "jsnum \<Rightarrow> jsnum" where
  "js_abs (Num x) = Num \<bar>x\<bar>"
| "js_abs PosInf = PosInf"
| "js_abs NegInf = PosInf"
| "js_abs NaN = NaN"


section \<open>Data model (types.ts, strategy.ts)\<close>

text \<open>
  The interfaces of \<open>types.ts\<close> as records, with the source's field names; a field name
  that several interfaces share is qualified by the record (\<open>Trade.price\<close>). Where a
  variable of the source has the name of a field, it is shortened in the model
  (\<open>symb\<close>, \<open>prc\<close>, \<open>qty\<close>, \<open>strat\<close>, \<open>limits\<close>). \<open>Portfolio\<close> is an object with a
  reference in it and comes with the object store below.
\<close>

type_synonym addr = nat

datatype Side = BUY | SELL

record Asset =
  symbol :: string
  price :: real
  holdings :: real

record Trade =
  symbol :: string
  side :: Side
  quantity :: real
  price :: real
  timestamp :: real

record PriceUpdate =
  symbol :: string
  price :: real
  timestamp :: real

record RiskLimits =
  maxPositionSize :: real
  maxDailyLoss :: real
  maxTradeSize :: real

record StrategyConfig =
  dropThreshold :: real
  riseThreshold :: real
  buyPercentage :: real
  sellPercentage :: real
  twapSlices :: real
  twapInterval :: real

text \<open>
  \<open>finalPortfolio\<close> of a \<open>BacktestResult\<close> is a reference to a portfolio object in the
  store of section ``The object store''.

  The \<open>reason\<close> of a signal is a template string around a number rendered by
  \<open>toFixed(2)\<close>. The model keeps the template and the number that is rendered.
\<close>

datatype Reason = PriceDropped jsnum | PriceRose jsnum

record TradeSignal =
  symbol :: string
  action :: Side
  percentage :: real
  reason :: Reason

record BacktestResult =
  trades :: "Trade list"
  finalPortfolio :: addr
  totalReturn :: jsnum
  sharpeRatio :: jsnum
  maxDrawdown :: jsnum

datatype error = TypeError


section \<open>DropRiseStrategy (strategy.ts)\<close>

record DropRiseStrategy =
  config :: StrategyConfig
  priceHistory :: "string \<rightharpoonup> real list"
  initialPrices :: "string \<rightharpoonup> real"

definition defaultConfig :: StrategyConfig where
  "defaultConfig =
     \<lparr>dropThreshold = 5 / 100, riseThreshold = 10 / 100, buyPercentage = 10 / 100,
      sellPercentage = 20 / 100, twapSlices = 5, twapInterval = 60000\<rparr>"

text \<open>\<open>new DropRiseStrategy()\<close>: the field initialisers.\<close>

definition newDropRiseStrategy :: DropRiseStrategy where
  "newDropRiseStrategy =
     \<lparr>config = defaultConfig, priceHistory = Map.empty, initialPrices = Map.empty\<rparr>"

text \<open>
  \<open>initialize\<close> spreads the supplied config over the current one. \<open>StrategyConfig\<close> has
  no optional field, so every field is overridden.
\<close>

definition initialize :: "DropRiseStrategy \<Rightarrow> StrategyConfig \<Rightarrow> DropRiseStrategy" where
  "initialize this cfg = this\<lparr>config := cfg\<rparr>"

text \<open>
  \<open>onUpdate\<close> returns the signal (\<open>None\<close> for \<open>null\<close>) and the strategy after the call.
  \<open>this.priceHistory.get(symbol)!\<close> is \<open>undefined\<close> when the key is missing, and
  \<open>undefined.push\<close> throws a TypeError.
\<close>

definition onUpdate ::
  "DropRiseStrategy \<Rightarrow> PriceUpdate \<Rightarrow> error + (TradeSignal option \<times> DropRiseStrategy)" where
  "onUpdate this update =
     (let symb = PriceUpdate.symbol update; prc = PriceUpdate.price update in
      case initialPrices this symb of
        None \<Rightarrow>
          Inr (None,
               this\<lparr>initialPrices := (initialPrices this)(symb \<mapsto> prc),
                    priceHistory := (priceHistory this)(symb \<mapsto> [prc])\<rparr>)
      | Some initialPrice \<Rightarrow>
          (case priceHistory this symb of
             None \<Rightarrow> Inl TypeError
           | Some history \<Rightarrow>
               let pushed = history @ [prc];
                   shifted = (if length pushed > 100 then tl pushed else pushed);
                   this' = this\<lparr>priceHistory := (priceHistory this)(symb \<mapsto> shifted)\<rparr>;
                   priceChange = js_div (prc - initialPrice) initialPrice
               in if js_le priceChange (- dropThreshold (config this)) then
                    Inr (Some \<lparr>TradeSignal.symbol = symb, action = BUY,
                                percentage = buyPercentage (config this),
                                reason = PriceDropped (js_abs (js_times100 priceChange))\<rparr>,
                         this')
                  else if js_ge priceChange (riseThreshold (config this)) then
                    Inr (Some \<lparr>TradeSignal.symbol = symb, action = SELL,
                                percentage = sellPercentage (config this),
                                reason = PriceRose (js_times100 priceChange)\<rparr>,
                         this')
                  else Inr (None, this')))"

definition onEnd :: "DropRiseStrategy \<Rightarrow> DropRiseStrategy" where
  "onEnd this = this\<lparr>priceHistory := Map.empty, initialPrices := Map.empty\<rparr>"

text \<open>
  A driver feeds the updates to \<open>onUpdate\<close> one after the other, in the order given:
  \<open>feed\<close> collects the signal of every call, and stops at the first throw.
\<close>

fun feed ::
  "DropRiseStrategy \<Rightarrow> PriceUpdate list \<Rightarrow> error + (TradeSignal option list \<times> DropRiseStrategy)" where
  "feed this [] = Inr ([], this)"
| "feed this (u # us) =
     (case onUpdate this u of
        Inl e \<Rightarrow> Inl e
      | Inr (s, this') \<Rightarrow>
          (case feed this' us of
             Inl e \<Rightarrow> Inl e
           | Inr (ss, this'') \<Rightarrow> Inr (s # ss, this'')))"

text \<open>
  The two maps of a strategy are private, set together and cleared together: every
  strategy a program can hold has a history for exactly the symbols that have a
  reference price.
\<close>

definition strategy_inv :: "DropRiseStrategy \<Rightarrow> bool" where
  "strategy_inv this \<longleftrightarrow> dom (priceHistory this) = dom (initialPrices this)"

section \<open>The object store\<close>

text \<open>
  A \<open>Portfolio\<close> is an object that refers to a \<open>Record<string, Asset>\<close> object, which refers
  to \<open>Asset\<close> objects; the engine mutates them in place, and the caller of the engine
  holds a portfolio of its own. The store is the list of all objects allocated so far;
  a reference is an index into it and allocation appends. A \<open>RecordObj\<close> lists the own
  properties of the record in enumeration order. Properties inherited from
  \<open>Object.prototype\<close> (a symbol named \<open>constructor\<close>, \<open>toString\<close>, ...) are outside the
  model, as are references that TypeScript's types exclude: the reads below return a
  default for them, and \<open>engine_wf\<close> says that the engine's portfolio has none.
\<close>

record Portfolio =
  cash :: real
  assets :: addr

datatype obj =
    PortfolioObj Portfolio
  | RecordObj "(string \<times> addr) list"
  | AssetObj Asset

type_synonym heap = "obj list"

definition deref :: "heap \<Rightarrow> addr \<Rightarrow> obj option" where
  "deref h a = (if a < length h then Some (h ! a) else None)"

definition alloc :: "heap \<Rightarrow> obj \<Rightarrow> heap \<times> addr" where
  "alloc h v = (h @ [v], length h)"

text \<open>
  \<open>JSON.stringify\<close> reads the tree of values below a portfolio reference;
  \<open>JSON.parse\<close> builds the tree again out of fresh objects.
\<close>

record PortfolioJSON =
  json_cash :: real
  json_assets :: "(string \<times> Asset) list"

fun stringifyAssets :: "heap \<Rightarrow> (string \<times> addr) list \<Rightarrow> (string \<times> Asset) list option" where
  "stringifyAssets h [] = Some []"
| "stringifyAssets h ((k, a) # es) =
     (case deref h a of
        Some (AssetObj v) \<Rightarrow> map_option ((#) (k, v)) (stringifyAssets h es)
      | _ \<Rightarrow> None)"

definition stringify :: "heap \<Rightarrow> addr \<Rightarrow> PortfolioJSON option" where
  "stringify h p =
     (case deref h p of
        Some (PortfolioObj pf) \<Rightarrow>
          (case deref h (assets pf) of
             Some (RecordObj es) \<Rightarrow>
               map_option (\<lambda>vs. \<lparr>json_cash = cash pf, json_assets = vs\<rparr>) (stringifyAssets h es)
           | _ \<Rightarrow> None)
      | _ \<Rightarrow> None)"

fun parseAssets :: "heap \<Rightarrow> (string \<times> Asset) list \<Rightarrow> heap \<times> (string \<times> addr) list" where
  "parseAssets h [] = (h, [])"
| "parseAssets h ((k, v) # vs) =
     (case alloc h (AssetObj v) of
        (h1, a) \<Rightarrow> (case parseAssets h1 vs of (h2, es) \<Rightarrow> (h2, (k, a) # es)))"

definition parse :: "heap \<Rightarrow> PortfolioJSON \<Rightarrow> heap \<times> addr" where
  "parse h j =
     (case parseAssets h (json_assets j) of
        (h1, es) \<Rightarrow>
          (case alloc h1 (RecordObj es) of
             (h2, r) \<Rightarrow> alloc h2 (PortfolioObj \<lparr>cash = json_cash j, assets = r\<rparr>)))"


section \<open>BacktestingEngine\<close>

text \<open>
  The state of a run: the object store and the fields of the engine. \<open>portfolio\<close> is a
  reference into the store. The strategy is the \<open>DropRiseStrategy\<close> that \<open>index.ts\<close>
  passes; the model holds it by value (the source shares the object with the caller,
  which plays no part below). The engine's own \<open>priceHistory\<close> map is never read or
  written and is left out. Every \<open>await\<close> of the backtest is on a promise that is already
  settled, so the \<open>async\<close> methods are modelled as plain sequential functions.
\<close>

record BacktestingEngine =
  store :: heap
  strategy :: DropRiseStrategy
  portfolio :: addr
  trades :: "Trade list"
  riskLimits :: RiskLimits

text \<open>
  The constructor: \<open>this.portfolio = JSON.parse(JSON.stringify(initialPortfolio))\<close>.
  The result is \<open>None\<close> when \<open>initialPortfolio\<close> does not refer to a well-typed portfolio.
\<close>

definition newBacktestingEngine ::
  "heap \<Rightarrow> DropRiseStrategy \<Rightarrow> addr \<Rightarrow> RiskLimits \<Rightarrow> BacktestingEngine option" where
  "newBacktestingEngine h strat initialPortfolio limits =
     (case stringify h initialPortfolio of
        None \<Rightarrow> None
      | Some j \<Rightarrow>
          (case parse h j of
             (h', p) \<Rightarrow>
               Some \<lparr>store = h', strategy = strat, portfolio = p, trades = [],
                     riskLimits = limits\<rparr>))"

subsection \<open>Reads and writes through \<open>this.portfolio\<close>\<close>

definition getCash :: "BacktestingEngine \<Rightarrow> real" where
  "getCash this =
     (case deref (store this) (portfolio this) of
        Some (PortfolioObj pf) \<Rightarrow> cash pf
      | _ \<Rightarrow> 0)"

definition setCash :: "BacktestingEngine \<Rightarrow> real \<Rightarrow> BacktestingEngine" where
  "setCash this c =
     (case deref (store this) (portfolio this) of
        Some (PortfolioObj pf) \<Rightarrow>
          this\<lparr>store := (store this)[portfolio this := PortfolioObj (pf\<lparr>cash := c\<rparr>)]\<rparr>
      | _ \<Rightarrow> this)"

text \<open>The own properties of \<open>this.portfolio.assets\<close>, in enumeration order.\<close>

definition assetEntries :: "BacktestingEngine \<Rightarrow> (string \<times> addr) list" where
  "assetEntries this =
     (case deref (store this) (portfolio this) of
        Some (PortfolioObj pf) \<Rightarrow>
          (case deref (store this) (assets pf) of
             Some (RecordObj es) \<Rightarrow> es
           | _ \<Rightarrow> [])
      | _ \<Rightarrow> [])"

text \<open>\<open>this.portfolio.assets[symbol]\<close>: \<open>None\<close> is \<open>undefined\<close>.\<close>

definition lookupAsset :: "BacktestingEngine \<Rightarrow> string \<Rightarrow> addr option" where
  "lookupAsset this symb = map_of (assetEntries this) symb"

definition getAsset :: "BacktestingEngine \<Rightarrow> addr \<Rightarrow> Asset option" where
  "getAsset this a =
     (case deref (store this) a of
        Some (AssetObj v) \<Rightarrow> Some v
      | _ \<Rightarrow> None)"

definition getHoldings :: "BacktestingEngine \<Rightarrow> addr \<Rightarrow> real" where
  "getHoldings this a = (case getAsset this a of Some v \<Rightarrow> holdings v | None \<Rightarrow> 0)"

definition setHoldings :: "BacktestingEngine \<Rightarrow> addr \<Rightarrow> real \<Rightarrow> BacktestingEngine" where
  "setHoldings this a x =
     (case getAsset this a of
        Some v \<Rightarrow> this\<lparr>store := (store this)[a := AssetObj (v\<lparr>holdings := x\<rparr>)]\<rparr>
      | None \<Rightarrow> this)"

text \<open>\<open>Object.values(this.portfolio.assets)\<close>, read at the time of the call.\<close>

definition objectValues :: "BacktestingEngine \<Rightarrow> Asset list" where
  "objectValues this = List.map_filter (\<lambda>(k, a). getAsset this a) (assetEntries this)"

definition pushTrade :: "BacktestingEngine \<Rightarrow> Trade \<Rightarrow> BacktestingEngine" where
  "pushTrade this t = this\<lparr>trades := trades this @ [t]\<rparr>"

definition engine_wf :: "BacktestingEngine \<Rightarrow> bool" where
  "engine_wf this =
     (case deref (store this) (portfolio this) of
        Some (PortfolioObj pf) \<Rightarrow>
          (case deref (store this) (assets pf) of
             Some (RecordObj es) \<Rightarrow>
               list_all (\<lambda>(k, a). getAsset this a \<noteq> None) es
           | _ \<Rightarrow> False)
      | _ \<Rightarrow> False)"

subsection \<open>Risk check and valuation\<close>

definition riskCheck :: "BacktestingEngine \<Rightarrow> string \<Rightarrow> real \<Rightarrow> real \<Rightarrow> bool" where
  "riskCheck this symb qty prc =
     (let tradeValue = qty * prc in
      tradeValue \<le> maxTradeSize (riskLimits this) \<and> qty \<le> maxPositionSize (riskLimits this))"

text \<open>
  \<open>calculateTotalValue\<close> does not read its parameter; \<open>run\<close> passes
  \<open>priceData[priceData.length - 1]\<close>, which is \<open>undefined\<close> (\<open>None\<close>) for an empty array.
\<close>

definition calculateTotalValue :: "BacktestingEngine \<Rightarrow> PriceUpdate option \<Rightarrow> real" where
  "calculateTotalValue this update =
     foldl (\<lambda>total asset. total + holdings asset * Asset.price asset)
       (getCash this) (objectValues this)"

definition calculateInitialValue :: "BacktestingEngine \<Rightarrow> real" where
  "calculateInitialValue this =
     foldl (\<lambda>total asset. total + holdings asset * Asset.price asset)
       (getCash this) (objectValues this)"

subsection \<open>executeBuy\<close>

text \<open>The object literal that slice \<open>i\<close> of either loop pushes onto \<open>this.trades\<close>.\<close>

definition sliceTrade :: "Side \<Rightarrow> TradeSignal \<Rightarrow> PriceUpdate \<Rightarrow> real \<Rightarrow> nat \<Rightarrow> Trade" where
  "sliceTrade sd signal update qty i =
     \<lparr>Trade.symbol = TradeSignal.symbol signal, side = sd, quantity = qty,
      Trade.price = PriceUpdate.price update,
      Trade.timestamp = PriceUpdate.timestamp update + real i * 60000\<rparr>"

text \<open>
  One iteration of the BUY loop after the \<open>break\<close> test. When \<open>update.price\<close> is 0 the
  quantity is an infinity or NaN, \<open>quantity * price\<close> is NaN, and \<open>riskCheck\<close> is false.
\<close>

definition buySlice ::
  "TradeSignal \<Rightarrow> PriceUpdate \<Rightarrow> addr \<Rightarrow> real \<Rightarrow> nat \<Rightarrow> BacktestingEngine \<Rightarrow> BacktestingEngine" where
  "buySlice signal update asset sliceAmount i this =
     (case js_div sliceAmount (PriceUpdate.price update) of
        Num qty \<Rightarrow>
          if riskCheck this (TradeSignal.symbol signal) qty (PriceUpdate.price update) then
            let this1 = setCash this (getCash this - sliceAmount);
                this2 = setHoldings this1 asset (getHoldings this1 asset + qty)
            in pushTrade this2 (sliceTrade BUY signal update qty i)
          else this
      | _ \<Rightarrow> this)"

function buyLoop ::
  "TradeSignal \<Rightarrow> PriceUpdate \<Rightarrow> addr \<Rightarrow> real \<Rightarrow> nat \<Rightarrow> BacktestingEngine \<Rightarrow> BacktestingEngine" where
  "buyLoop signal update asset sliceAmount i this =
     (if i < 5 then
        if getCash this < sliceAmount then this
        else buyLoop signal update asset sliceAmount (i + 1)
               (buySlice signal update asset sliceAmount i this)
      else this)"
  by pat_completeness auto
termination
  by (relation "measure (\<lambda>(signal, update, asset, sliceAmount, i, this). 5 - i)") auto

declare buyLoop.simps [simp del]

definition executeBuy ::
  "BacktestingEngine \<Rightarrow> TradeSignal \<Rightarrow> PriceUpdate \<Rightarrow> BacktestingEngine" where
  "executeBuy this signal update =
     (case lookupAsset this (TradeSignal.symbol signal) of
        None \<Rightarrow> this
      | Some asset \<Rightarrow>
          let portfolioValue = calculateTotalValue this (Some update);
              buyAmount = portfolioValue * percentage signal;
              sliceAmount = buyAmount / 5
          in buyLoop signal update asset sliceAmount 0 this)"

subsection \<open>executeSell\<close>

definition sellSlice ::
  "TradeSignal \<Rightarrow> PriceUpdate \<Rightarrow> addr \<Rightarrow> real \<Rightarrow> nat \<Rightarrow> BacktestingEngine \<Rightarrow> BacktestingEngine" where
  "sellSlice signal update asset sliceQuantity i this =
     (let qty = min sliceQuantity (getHoldings this asset) in
      if qty > 0 \<and>
         riskCheck this (TradeSignal.symbol signal) qty (PriceUpdate.price update) then
        let this1 = setHoldings this asset (getHoldings this asset - qty);
            this2 = setCash this1 (getCash this1 + qty * PriceUpdate.price update)
        in pushTrade this2 (sliceTrade SELL signal update qty i)
      else this)"

function sellLoop ::
  "TradeSignal \<Rightarrow> PriceUpdate \<Rightarrow> addr \<Rightarrow> real \<Rightarrow> nat \<Rightarrow> BacktestingEngine \<Rightarrow> BacktestingEngine" where
  "sellLoop signal update asset sliceQuantity i this =
     (if i < 5 then
        sellLoop signal update asset sliceQuantity (i + 1)
          (sellSlice signal update asset sliceQuantity i this)
      else this)"
  by pat_completeness auto
termination
  by (relation "measure (\<lambda>(signal, update, asset, sliceQuantity, i, this). 5 - i)") auto

declare sellLoop.simps [simp del]

definition executeSell ::
  "BacktestingEngine \<Rightarrow> TradeSignal \<Rightarrow> PriceUpdate \<Rightarrow> BacktestingEngine" where
  "executeSell this signal update =
     (case lookupAsset this (TradeSignal.symbol signal) of
        None \<Rightarrow> this
      | Some asset \<Rightarrow>
          if getHoldings this asset \<le> 0 then this
          else
            let sellQuantity = getHoldings this asset * percentage signal;
                sliceQuantity = sellQuantity / 5
            in sellLoop signal update asset sliceQuantity 0 this)"

subsection \<open>processUpdate\<close>

definition processUpdate :: "BacktestingEngine \<Rightarrow> PriceUpdate \<Rightarrow> error + BacktestingEngine" where
  "processUpdate this update =
     (case onUpdate (strategy this) update of
        Inl e \<Rightarrow> Inl e
      | Inr (signal, strategy') \<Rightarrow>
          (let this' = this\<lparr>strategy := strategy'\<rparr> in
           case signal of
             None \<Rightarrow> Inr this'
           | Some sg \<Rightarrow>
               if action sg = BUY then Inr (executeBuy this' sg update)
               else Inr (executeSell this' sg update)))"

fun processUpdates :: "BacktestingEngine \<Rightarrow> PriceUpdate list \<Rightarrow> error + BacktestingEngine" where
  "processUpdates this [] = Inr this"
| "processUpdates this (update # rest) =
     (case processUpdate this update of
        Inl e \<Rightarrow> Inl e
      | Inr this' \<Rightarrow> processUpdates this' rest)"

subsection \<open>Performance statistics\<close>

text \<open>
  The portfolio value with the trade's price substituted for the assets whose \<open>symbol\<close>
  field is the trade's symbol: the inner loop of both \<open>calculateReturns\<close> and
  \<open>calculateMaxDrawdown\<close>.
\<close>

definition valueAtTrade :: "BacktestingEngine \<Rightarrow> Trade \<Rightarrow> real" where
  "valueAtTrade this trade =
     foldl (\<lambda>total asset.
              total + holdings asset *
                (if Asset.symbol asset = Trade.symbol trade then Trade.price trade
                 else Asset.price asset))
       (getCash this) (objectValues this)"

fun returnsLoop :: "BacktestingEngine \<Rightarrow> Trade list \<Rightarrow> real \<Rightarrow> real list \<Rightarrow> real list" where
  "returnsLoop this [] prevValue returns = returns"
| "returnsLoop this (trade # rest) prevValue returns =
     (let v = valueAtTrade this trade in
      returnsLoop this rest v
        (if prevValue \<noteq> 0 then returns @ [(v - prevValue) / prevValue] else returns))"

definition calculateReturns :: "BacktestingEngine \<Rightarrow> real list" where
  "calculateReturns this = returnsLoop this (trades this) (calculateInitialValue this) []"

text \<open>
  With two or more trades and an empty return series, \<open>avgReturn\<close> is \<open>0 / 0\<close>, which is
  NaN; then \<open>stdDev\<close> is NaN, \<open>stdDev !== 0\<close> holds and the result is NaN.
\<close>

definition calculateSharpeRatio :: "BacktestingEngine \<Rightarrow> jsnum" where
  "calculateSharpeRatio this =
     (if length (trades this) < 2 then Num 0
      else
        let returns = calculateReturns this in
        if returns = [] then NaN
        else
          let avgReturn = foldl (\<lambda>a b. a + b) 0 returns / real (length returns);
              stdDev = sqrt (foldl (\<lambda>sum r. sum + (r - avgReturn) ^ 2) 0 returns
                             / real (length returns))
          in if stdDev \<noteq> 0 then Num ((avgReturn / stdDev) * sqrt 252) else Num 0)"

fun drawdownLoop :: "real list \<Rightarrow> real \<Rightarrow> jsnum \<Rightarrow> jsnum" where
  "drawdownLoop [] peak maxDD = maxDD"
| "drawdownLoop (v # rest) peak maxDD =
     (let peak' = (if v > peak then v else peak);
          drawdown = js_times100 (js_div (peak' - v) peak')
      in drawdownLoop rest peak' (if js_gt drawdown maxDD then drawdown else maxDD))"

text \<open>The \<open>values\<close> array of \<open>calculateMaxDrawdown\<close>.\<close>

definition tradeValues :: "BacktestingEngine \<Rightarrow> real list" where
  "tradeValues this = map (valueAtTrade this) (trades this)"

definition calculateMaxDrawdown :: "BacktestingEngine \<Rightarrow> jsnum" where
  "calculateMaxDrawdown this =
     drawdownLoop (tradeValues this) (calculateInitialValue this) (Num 0)"



subsection \<open>run\<close>

text \<open>The config literal that \<open>run\<close> passes to \<open>initialize\<close>.\<close>

definition runConfig :: StrategyConfig where
  "runConfig =
     \<lparr>dropThreshold = 5 / 100, riseThreshold = 10 / 100, buyPercentage = 10 / 100,
      sellPercentage = 20 / 100, twapSlices = 5, twapInterval = 60000\<rparr>"

text \<open>\<open>{ ...this.portfolio }\<close>: a new object with the same \<open>cash\<close> and the same \<open>assets\<close> reference.\<close>

definition spreadPortfolio :: "BacktestingEngine \<Rightarrow> BacktestingEngine \<times> addr" where
  "spreadPortfolio this =
     (case deref (store this) (portfolio this) of
        Some (PortfolioObj pf) \<Rightarrow>
          (case alloc (store this) (PortfolioObj pf) of (h, a) \<Rightarrow> (this\<lparr>store := h\<rparr>, a))
      | _ \<Rightarrow> (this, portfolio this))"

definition run ::
  "BacktestingEngine \<Rightarrow> PriceUpdate list \<Rightarrow> error + (BacktestResult \<times> BacktestingEngine)" where
  "run this priceData =
     (let this1 = this\<lparr>strategy := initialize (strategy this) runConfig\<rparr> in
      case processUpdates this1 priceData of
        Inl e \<Rightarrow> Inl e
      | Inr this2 \<Rightarrow>
          let this3 = this2\<lparr>strategy := onEnd (strategy this2)\<rparr>;
              totalValue = calculateTotalValue this3
                             (if priceData = [] then None else Some (last priceData));
              initialValue = calculateInitialValue this3;
              totalRet = js_times100 (js_div (totalValue - initialValue) initialValue)
          in (case spreadPortfolio this3 of
                (this4, fp) \<Rightarrow>
                  Inr (\<lparr>BacktestResult.trades = trades this4, finalPortfolio = fp,
                        totalReturn = totalRet,
                        sharpeRatio = calculateSharpeRatio this4,
                        maxDrawdown = calculateMaxDrawdown this4\<rparr>,
                       this4)))"

subsection \<open>The \<open>twapSlices\<close> field seen from the engine\<close>


subsection \<open>What a run may change\<close>

text \<open>
  The objects reachable from \<open>this.portfolio\<close>, and those among them that the engine
  assigns to: the portfolio object (\<open>cash\<close>) and the asset objects (\<open>holdings\<close>).
\<close>

definition engineRefs :: "BacktestingEngine \<Rightarrow> addr set" where
  "engineRefs this =
     (case deref (store this) (portfolio this) of
        Some (PortfolioObj pf) \<Rightarrow> {portfolio this, assets pf} \<union> snd ` set (assetEntries this)
      | _ \<Rightarrow> {portfolio this})"

definition writable :: "BacktestingEngine \<Rightarrow> addr set" where
  "writable this = insert (portfolio this) (snd ` set (assetEntries this))"

text \<open>
  \<open>evolves this this'\<close>: from \<open>this\<close> to \<open>this'\<close> no object was allocated, no object outside
  \<open>writable this\<close> was assigned to, the engine refers to the same portfolio with the same
  asset entries, no asset changed its \<open>symbol\<close> or \<open>price\<close>, and trades were only appended.
\<close>

definition evolves :: "BacktestingEngine \<Rightarrow> BacktestingEngine \<Rightarrow> bool" where
  "evolves this this' \<longleftrightarrow>
     portfolio this' = portfolio this \<and>
     riskLimits this' = riskLimits this \<and>
     length (store this') = length (store this) \<and>
     assetEntries this' = assetEntries this \<and>
     map Asset.price (objectValues this') = map Asset.price (objectValues this) \<and>
     map Asset.symbol (objectValues this') = map Asset.symbol (objectValues this) \<and>
     (\<forall>a. a \<notin> writable this \<longrightarrow> deref (store this') a = deref (store this) a) \<and>
     (\<exists>ts. trades this' = trades this @ ts)"



section \<open>Concrete inputs\<close>

text \<open>The inputs at which the theorems below are instantiated.\<close>

definition ex_update :: "string \<Rightarrow> real \<Rightarrow> PriceUpdate" where
  "ex_update s p = \<lparr>PriceUpdate.symbol = s, PriceUpdate.price = p, PriceUpdate.timestamp = 0\<rparr>"

text \<open>A default strategy that has seen \<open>ETHUSDT\<close> once, at 2000.\<close>

definition ex_seen :: DropRiseStrategy where
  "ex_seen =
     \<lparr>config = defaultConfig, priceHistory = [''ETHUSDT'' \<mapsto> [2000]],
      initialPrices = [''ETHUSDT'' \<mapsto> 2000]\<rparr>"

definition zeroThresholds :: StrategyConfig where
  "zeroThresholds = defaultConfig\<lparr>dropThreshold := 0, riseThreshold := 0\<rparr>"

text \<open>The risk limits of \<open>index.ts\<close>.\<close>

definition ex_limits :: RiskLimits where
  "ex_limits = \<lparr>maxPositionSize = 100, maxDailyLoss = 5 / 100, maxTradeSize = 50000\<rparr>"

text \<open>
  An engine whose portfolio holds 1000 in cash and 10 units of an asset priced at 210,
  with \<open>maxTradeSize = 10000\<close>, and a BUY signal for the whole portfolio value.
\<close>

definition eng_buy :: BacktestingEngine where
  "eng_buy =
     \<lparr>store =
        [AssetObj \<lparr>Asset.symbol = ''X'', Asset.price = 210, holdings = 10\<rparr>,
         RecordObj [(''X'', 0)],
         PortfolioObj \<lparr>cash = 1000, assets = 1\<rparr>],
      strategy = newDropRiseStrategy, portfolio = 2, trades = [],
      riskLimits = \<lparr>maxPositionSize = 100, maxDailyLoss = 5 / 100, maxTradeSize = 10000\<rparr>\<rparr>"

definition sig_buy :: TradeSignal where
  "sig_buy =
     \<lparr>TradeSignal.symbol = ''X'', action = BUY, percentage = 1, reason = PriceDropped (Num 0)\<rparr>"

text \<open>An engine whose portfolio holds 50 units of \<open>SOLUSDT\<close>, and a SELL signal for 20%.\<close>

definition eng_sell :: BacktestingEngine where
  "eng_sell =
     \<lparr>store =
        [AssetObj \<lparr>Asset.symbol = ''SOLUSDT'', Asset.price = 100, holdings = 50\<rparr>,
         RecordObj [(''SOLUSDT'', 0)],
         PortfolioObj \<lparr>cash = 1000, assets = 1\<rparr>],
      strategy = newDropRiseStrategy, portfolio = 2, trades = [], riskLimits = ex_limits\<rparr>"


text \<open>
  The store of a caller that holds the portfolio of the end-to-end scenario at
  address 2: 100000 in cash and 10 \<open>ETHUSDT\<close> at 2000.
\<close>

definition caller_heap :: heap where
  "caller_heap =
     [AssetObj \<lparr>Asset.symbol = ''ETHUSDT'', Asset.price = 2000, holdings = 10\<rparr>,
      RecordObj [(''ETHUSDT'', 0)],
      PortfolioObj \<lparr>cash = 100000, assets = 1\<rparr>]"


text \<open>
  The engine that the constructor builds from that portfolio, a default strategy and
  the risk limits of \<open>index.ts\<close>; and the two updates of the scenario, the seed at 2000
  and a 10% drop to 1800.
\<close>

definition eng_e2e :: BacktestingEngine where
  "eng_e2e =
     \<lparr>store =
        caller_heap @
        [AssetObj \<lparr>Asset.symbol = ''ETHUSDT'', Asset.price = 2000, holdings = 10\<rparr>,
         RecordObj [(''ETHUSDT'', 3)],
         PortfolioObj \<lparr>cash = 100000, assets = 4\<rparr>],
      strategy = newDropRiseStrategy, portfolio = 5, trades = [], riskLimits = ex_limits\<rparr>"

definition e2e_updates :: "PriceUpdate list" where
  "e2e_updates = [ex_update ''ETHUSDT'' 2000, ex_update ''ETHUSDT'' 1800]"


section \<open>Properties of the strategy\<close>

lemma onUpdate_first:
  "initialPrices this (PriceUpdate.symbol u) = None \<Longrightarrow>
   onUpdate this u =
     Inr (None, this\<lparr>initialPrices := (initialPrices this)(PriceUpdate.symbol u \<mapsto> PriceUpdate.price u),
                     priceHistory := (priceHistory this)(PriceUpdate.symbol u \<mapsto> [PriceUpdate.price u])\<rparr>)"
  by (simp add: onUpdate_def Let_def)

lemma inv_history:
  "strategy_inv this \<Longrightarrow> initialPrices this s = Some p0 \<Longrightarrow> \<exists>h. priceHistory this s = Some h"
  unfolding strategy_inv_def by (metis domD domI)

lemma onUpdate_later:
  assumes "initialPrices this (PriceUpdate.symbol u) = Some p0"
    and "priceHistory this (PriceUpdate.symbol u) = Some h"
  shows "\<exists>this'. onUpdate this u =
      Inr (if js_le (js_div (PriceUpdate.price u - p0) p0) (- dropThreshold (config this)) then
             Some \<lparr>TradeSignal.symbol = PriceUpdate.symbol u, action = BUY,
                   percentage = buyPercentage (config this),
                   reason = PriceDropped (js_abs (js_times100 (js_div (PriceUpdate.price u - p0) p0)))\<rparr>
           else if js_ge (js_div (PriceUpdate.price u - p0) p0) (riseThreshold (config this)) then
             Some \<lparr>TradeSignal.symbol = PriceUpdate.symbol u, action = SELL,
                   percentage = sellPercentage (config this),
                   reason = PriceRose (js_times100 (js_div (PriceUpdate.price u - p0) p0))\<rparr>
           else None, this') \<and>
      config this' = config this \<and> initialPrices this' = initialPrices this \<and>
      dom (priceHistory this') = dom (priceHistory this) \<and>
      (\<forall>s. s \<noteq> PriceUpdate.symbol u \<longrightarrow> priceHistory this' s = priceHistory this s)"
  using assms by (auto simp add: onUpdate_def Let_def)

lemma onUpdate_total:
  assumes "strategy_inv this"
  shows "\<exists>s this'. onUpdate this u = Inr (s, this') \<and> strategy_inv this' \<and>
           config this' = config this \<and>
           (\<forall>x p. initialPrices this x = Some p \<longrightarrow> initialPrices this' x = Some p) \<and>
           (\<forall>x. x \<noteq> PriceUpdate.symbol u \<longrightarrow> initialPrices this' x = initialPrices this x \<and> priceHistory this' x = priceHistory this x)"
proof (cases "initialPrices this (PriceUpdate.symbol u)")
  case None
  from onUpdate_first [OF None] assms None show ?thesis
    by (auto simp add: strategy_inv_def)
next
  case (Some p0)
  from inv_history [OF assms Some] obtain h where h: "priceHistory this (PriceUpdate.symbol u) = Some h" ..
  from onUpdate_later [OF Some h] obtain this' sg where
    "onUpdate this u = Inr (sg, this')" "config this' = config this" "initialPrices this' = initialPrices this"
    "dom (priceHistory this') = dom (priceHistory this)"
    "\<forall>s. s \<noteq> PriceUpdate.symbol u \<longrightarrow> priceHistory this' s = priceHistory this s"
    by blast
  with assms show ?thesis by (auto simp add: strategy_inv_def)
qed

lemma feed_total:
  assumes "strategy_inv this"
  shows "\<exists>ss this'. feed this us = Inr (ss, this') \<and> strategy_inv this' \<and> length ss = length us \<and>
           config this' = config this \<and>
           (\<forall>x p. initialPrices this x = Some p \<longrightarrow> initialPrices this' x = Some p) \<and>
           (\<forall>x. x \<notin> PriceUpdate.symbol ` set us \<longrightarrow> initialPrices this' x = initialPrices this x \<and> priceHistory this' x = priceHistory this x)"
  using assms
proof (induction us arbitrary: this)
  case Nil
  then show ?case by simp
next
  case (Cons u us)
  from onUpdate_total [OF Cons.prems, of u] obtain s this1 where
    1: "onUpdate this u = Inr (s, this1)" "strategy_inv this1" "config this1 = config this"
       "\<forall>x p. initialPrices this x = Some p \<longrightarrow> initialPrices this1 x = Some p"
       "\<forall>x. x \<noteq> PriceUpdate.symbol u \<longrightarrow> initialPrices this1 x = initialPrices this x \<and> priceHistory this1 x = priceHistory this x"
    by blast
  from Cons.IH [OF 1(2)] obtain ss this2 where
    2: "feed this1 us = Inr (ss, this2)" "strategy_inv this2" "length ss = length us" "config this2 = config this1"
       "\<forall>x p. initialPrices this1 x = Some p \<longrightarrow> initialPrices this2 x = Some p"
       "\<forall>x. x \<notin> PriceUpdate.symbol ` set us \<longrightarrow> initialPrices this2 x = initialPrices this1 x \<and> priceHistory this2 x = priceHistory this1 x"
    by blast
  have "feed this (u # us) = Inr (s # ss, this2)" using 1(1) 2(1) by simp
  moreover have "\<forall>x p. initialPrices this x = Some p \<longrightarrow> initialPrices this2 x = Some p"
    using 1(4) 2(5) by blast
  moreover have "\<forall>x. x \<notin> PriceUpdate.symbol ` set (u # us) \<longrightarrow> initialPrices this2 x = initialPrices this x \<and> priceHistory this2 x = priceHistory this x"
    using 1(5) 2(6) by auto
  ultimately show ?case using 2(2,3,4) 1(3) by simp
qed

lemma ex_seen_inv: "strategy_inv ex_seen"
  by (simp add: strategy_inv_def ex_seen_def)


text \<open>
  Claim C4. On an update of a symbol that has a reference price \<open>p0\<close>, with
  \<open>priceChange = (price - p0) / p0\<close>: \<open>onUpdate\<close> returns a BUY signal with
  \<open>percentage = buyPercentage\<close> when \<open>priceChange <= -dropThreshold\<close>; otherwise a SELL
  signal with \<open>percentage = sellPercentage\<close> when \<open>priceChange >= riseThreshold\<close>;
  otherwise no signal, in particular for every \<open>priceChange\<close> strictly between
  \<open>-dropThreshold\<close> and \<open>riseThreshold\<close>. For \<open>p0 \<noteq> 0\<close> the quotient is the real
  quotient; for \<open>p0 = 0\<close> it is an infinity or NaN and the comparisons are JavaScript's.
\<close>

theorem onUpdate_threshold_signal:
  assumes "strategy_inv this" and "initialPrices this (PriceUpdate.symbol u) = Some p0"
  shows "\<exists>sg this'. onUpdate this u = Inr (sg, this') \<and>
     (js_le (js_div (PriceUpdate.price u - p0) p0) (- dropThreshold (config this)) \<longrightarrow>
        (\<exists>r. sg = Some \<lparr>TradeSignal.symbol = PriceUpdate.symbol u, action = BUY,
                         percentage = buyPercentage (config this), reason = r\<rparr>)) \<and>
     (\<not> js_le (js_div (PriceUpdate.price u - p0) p0) (- dropThreshold (config this)) \<and>
      js_ge (js_div (PriceUpdate.price u - p0) p0) (riseThreshold (config this)) \<longrightarrow>
        (\<exists>r. sg = Some \<lparr>TradeSignal.symbol = PriceUpdate.symbol u, action = SELL,
                         percentage = sellPercentage (config this), reason = r\<rparr>)) \<and>
     (\<not> js_le (js_div (PriceUpdate.price u - p0) p0) (- dropThreshold (config this)) \<and>
      \<not> js_ge (js_div (PriceUpdate.price u - p0) p0) (riseThreshold (config this)) \<longrightarrow>
        sg = None) \<and>
     (p0 \<noteq> 0 \<longrightarrow>
        js_div (PriceUpdate.price u - p0) p0 = Num ((PriceUpdate.price u - p0) / p0) \<and>
        (- dropThreshold (config this) < (PriceUpdate.price u - p0) / p0 \<and>
         (PriceUpdate.price u - p0) / p0 < riseThreshold (config this) \<longrightarrow> sg = None))"
proof -
  from inv_history [OF assms] obtain h where h: "priceHistory this (PriceUpdate.symbol u) = Some h" ..
  from onUpdate_later [OF assms(2) h] obtain this' where
    *: "onUpdate this u =
      Inr (if js_le (js_div (PriceUpdate.price u - p0) p0) (- dropThreshold (config this)) then
             Some \<lparr>TradeSignal.symbol = PriceUpdate.symbol u, action = BUY,
                   percentage = buyPercentage (config this),
                   reason = PriceDropped (js_abs (js_times100 (js_div (PriceUpdate.price u - p0) p0)))\<rparr>
           else if js_ge (js_div (PriceUpdate.price u - p0) p0) (riseThreshold (config this)) then
             Some \<lparr>TradeSignal.symbol = PriceUpdate.symbol u, action = SELL,
                   percentage = sellPercentage (config this),
                   reason = PriceRose (js_times100 (js_div (PriceUpdate.price u - p0) p0))\<rparr>
           else None, this')"
    by blast
  show ?thesis
    unfolding * by (auto simp add: js_div_def)
qed

theorem onUpdate_threshold_signal_witness:
  "\<exists>sg this'. onUpdate ex_seen (ex_update ''ETHUSDT'' 1800) = Inr (sg, this') \<and>
     (\<exists>r. sg = Some \<lparr>TradeSignal.symbol = ''ETHUSDT'', action = BUY,
                         percentage = 10 / 100, reason = r\<rparr>)"
proof -
  have i: "initialPrices ex_seen (PriceUpdate.symbol (ex_update ''ETHUSDT'' 1800)) = Some 2000"
    by (simp add: ex_seen_def ex_update_def)
  have d: "js_le (js_div (PriceUpdate.price (ex_update ''ETHUSDT'' 1800) - 2000) 2000)
             (- dropThreshold (config ex_seen))"
    by (simp add: ex_seen_def ex_update_def js_div_def defaultConfig_def)
  from onUpdate_threshold_signal [OF ex_seen_inv i] d show ?thesis
    by (auto simp add: ex_seen_def ex_update_def defaultConfig_def)
qed

text \<open>
  Claim C5. Whatever updates of other symbols come first, the first call of \<open>onUpdate\<close>
  for a symbol returns no signal, records the price as the reference price of the
  symbol and seeds its history with that price; so the signal at that position of any
  update sequence is \<open>null\<close>.
\<close>

theorem first_observation_no_signal:
  assumes "strategy_inv this"
    and "initialPrices this (PriceUpdate.symbol u) = None"
    and "\<forall>v \<in> set pre. PriceUpdate.symbol v \<noteq> PriceUpdate.symbol u"
  shows "\<exists>ss this1 this2.
           feed this pre = Inr (ss, this1) \<and>
           onUpdate this1 u = Inr (None, this2) \<and>
           initialPrices this2 (PriceUpdate.symbol u) = Some (PriceUpdate.price u) \<and>
           priceHistory this2 (PriceUpdate.symbol u) = Some [PriceUpdate.price u] \<and>
           (\<forall>post. \<exists>ts this3. feed this (pre @ u # post) = Inr (ss @ None # ts, this3))"
proof -
  from feed_total [OF assms(1), of pre] obtain ss this1 where
    1: "feed this pre = Inr (ss, this1)" "strategy_inv this1"
       "\<forall>x. x \<notin> PriceUpdate.symbol ` set pre \<longrightarrow> initialPrices this1 x = initialPrices this x \<and> priceHistory this1 x = priceHistory this x"
    by blast
  have "PriceUpdate.symbol u \<notin> PriceUpdate.symbol ` set pre" using assms(3) by auto
  with 1(3) assms(2) have n: "initialPrices this1 (PriceUpdate.symbol u) = None" by simp
  let ?this2 = "this1\<lparr>initialPrices := (initialPrices this1)(PriceUpdate.symbol u \<mapsto> PriceUpdate.price u),
                     priceHistory := (priceHistory this1)(PriceUpdate.symbol u \<mapsto> [PriceUpdate.price u])\<rparr>"
  have 2: "onUpdate this1 u = Inr (None, ?this2)" by (rule onUpdate_first [OF n])
  have inv2: "strategy_inv ?this2" using 1(2) by (auto simp add: strategy_inv_def)
  have "\<exists>ts this3. feed this (pre @ u # post) = Inr (ss @ None # ts, this3)" for post
  proof -
    from feed_total [OF inv2, of post] obtain ts this3 where
      3: "feed ?this2 post = Inr (ts, this3)" by blast
    have app: "feed a xs = Inr (rs, b) \<Longrightarrow> feed b ys = Inr (qs, c) \<Longrightarrow> feed a (xs @ ys) = Inr (rs @ qs, c)"
      for a b c xs ys rs qs
      by (induction xs arbitrary: a rs) (auto split: sum.splits prod.splits)
    have "feed this1 (u # post) = Inr (None # ts, this3)" using 2 3 by simp
    from app [OF 1(1) this] show ?thesis by blast
  qed
  with 1(1) 2 show ?thesis by auto
qed

theorem first_observation_no_signal_witness:
  "\<exists>ss this1 this2.
     feed newDropRiseStrategy [ex_update ''BTCUSDT'' 45000] = Inr (ss, this1) \<and>
     onUpdate this1 (ex_update ''ETHUSDT'' 2000) = Inr (None, this2) \<and>
     initialPrices this2 ''ETHUSDT'' = Some 2000 \<and>
     priceHistory this2 ''ETHUSDT'' = Some [2000]"
proof -
  have a: "strategy_inv newDropRiseStrategy"
    by (simp add: strategy_inv_def newDropRiseStrategy_def)
  have b: "initialPrices newDropRiseStrategy (PriceUpdate.symbol (ex_update ''ETHUSDT'' 2000)) = None"
    by (simp add: newDropRiseStrategy_def)
  have c: "\<forall>v \<in> set [ex_update ''BTCUSDT'' 45000].
             PriceUpdate.symbol v \<noteq> PriceUpdate.symbol (ex_update ''ETHUSDT'' 2000)"
    by (simp add: ex_update_def)
  from first_observation_no_signal [OF a b c] show ?thesis
    by (simp add: ex_update_def) blast
qed

text \<open>
  Claim C6, as stated, fails: with both thresholds 0, a reference price of 100 and the
  consecutive updates 100 and 110, both updates satisfy \<open>priceChange >= riseThreshold\<close>,
  yet the first emits BUY (it also satisfies \<open>priceChange <= -dropThreshold\<close>, which is
  tested first) and the second emits SELL.
\<close>

theorem same_inequality_different_signal:
  "map_sum id fst (feed (initialize newDropRiseStrategy zeroThresholds)
         [ex_update ''ETHUSDT'' 100, ex_update ''ETHUSDT'' 100, ex_update ''ETHUSDT'' 110]) =
     Inr [None,
          Some \<lparr>TradeSignal.symbol = ''ETHUSDT'', action = BUY, percentage = 10 / 100,
                reason = PriceDropped (Num 0)\<rparr>,
          Some \<lparr>TradeSignal.symbol = ''ETHUSDT'', action = SELL, percentage = 20 / 100,
                reason = PriceRose (Num 10)\<rparr>] \<and>
   js_ge (js_div (100 - 100) 100) (riseThreshold zeroThresholds) \<and>
   js_ge (js_div (110 - 100) 100) (riseThreshold zeroThresholds)"
  by (simp add: initialize_def newDropRiseStrategy_def zeroThresholds_def defaultConfig_def
      ex_update_def onUpdate_def js_div_def Let_def)

text \<open>
  Claim C6, amended. The reference price of a symbol never changes once recorded,
  whatever updates follow and whatever signals fire. For two updates of the symbol
  (with any updates in between): if both satisfy \<open>priceChange <= -dropThreshold\<close>, both
  emit BUY with \<open>buyPercentage\<close>; if both satisfy \<open>priceChange >= riseThreshold\<close> and
  neither satisfies \<open>priceChange <= -dropThreshold\<close>, both emit SELL with
  \<open>sellPercentage\<close>.
\<close>

theorem reference_price_fixed_signal_refires:
  assumes "strategy_inv this"
    and "initialPrices this (PriceUpdate.symbol u1) = Some p0"
    and "PriceUpdate.symbol u2 = PriceUpdate.symbol u1"
  shows "\<exists>s1 ss s2 this1 this2 this3.
           onUpdate this u1 = Inr (s1, this1) \<and> feed this1 mid = Inr (ss, this2) \<and>
           onUpdate this2 u2 = Inr (s2, this3) \<and>
           initialPrices this1 (PriceUpdate.symbol u1) = Some p0 \<and>
           initialPrices this2 (PriceUpdate.symbol u1) = Some p0 \<and>
           initialPrices this3 (PriceUpdate.symbol u1) = Some p0 \<and>
           (js_le (js_div (PriceUpdate.price u1 - p0) p0) (- dropThreshold (config this)) \<and>
            js_le (js_div (PriceUpdate.price u2 - p0) p0) (- dropThreshold (config this)) \<longrightarrow>
              (\<exists>a b. s1 = Some a \<and> s2 = Some b \<and> action a = BUY \<and> action b = BUY \<and>
                     percentage a = buyPercentage (config this) \<and>
                     percentage b = buyPercentage (config this))) \<and>
           (js_ge (js_div (PriceUpdate.price u1 - p0) p0) (riseThreshold (config this)) \<and>
            js_ge (js_div (PriceUpdate.price u2 - p0) p0) (riseThreshold (config this)) \<and>
            \<not> js_le (js_div (PriceUpdate.price u1 - p0) p0) (- dropThreshold (config this)) \<and>
            \<not> js_le (js_div (PriceUpdate.price u2 - p0) p0) (- dropThreshold (config this)) \<longrightarrow>
              (\<exists>a b. s1 = Some a \<and> s2 = Some b \<and> action a = SELL \<and> action b = SELL \<and>
                     percentage a = sellPercentage (config this) \<and>
                     percentage b = sellPercentage (config this)))"
proof -
  from inv_history [OF assms(1,2)] obtain h where h: "priceHistory this (PriceUpdate.symbol u1) = Some h" ..
  from onUpdate_later [OF assms(2) h] obtain this1 where
    1: "onUpdate this u1 =
      Inr (if js_le (js_div (PriceUpdate.price u1 - p0) p0) (- dropThreshold (config this)) then
             Some \<lparr>TradeSignal.symbol = PriceUpdate.symbol u1, action = BUY,
                   percentage = buyPercentage (config this),
                   reason = PriceDropped (js_abs (js_times100 (js_div (PriceUpdate.price u1 - p0) p0)))\<rparr>
           else if js_ge (js_div (PriceUpdate.price u1 - p0) p0) (riseThreshold (config this)) then
             Some \<lparr>TradeSignal.symbol = PriceUpdate.symbol u1, action = SELL,
                   percentage = sellPercentage (config this),
                   reason = PriceRose (js_times100 (js_div (PriceUpdate.price u1 - p0) p0))\<rparr>
           else None, this1)"
    and c1: "config this1 = config this" and i1: "initialPrices this1 = initialPrices this"
    and d1: "dom (priceHistory this1) = dom (priceHistory this)"
    by blast
  have inv1: "strategy_inv this1" using assms(1) i1 d1 by (simp add: strategy_inv_def)
  from feed_total [OF inv1, of mid] obtain ss this2 where
    2: "feed this1 mid = Inr (ss, this2)" and inv2: "strategy_inv this2"
    and c2: "config this2 = config this1"
    and i2: "\<forall>x p. initialPrices this1 x = Some p \<longrightarrow> initialPrices this2 x = Some p"
    by blast
  have r2: "initialPrices this2 (PriceUpdate.symbol u2) = Some p0"
    using i2 i1 assms(2,3) by simp
  from inv_history [OF inv2 r2] obtain h2 where h2: "priceHistory this2 (PriceUpdate.symbol u2) = Some h2" ..
  from onUpdate_later [OF r2 h2] obtain this3 where
    3: "onUpdate this2 u2 =
      Inr (if js_le (js_div (PriceUpdate.price u2 - p0) p0) (- dropThreshold (config this2)) then
             Some \<lparr>TradeSignal.symbol = PriceUpdate.symbol u2, action = BUY,
                   percentage = buyPercentage (config this2),
                   reason = PriceDropped (js_abs (js_times100 (js_div (PriceUpdate.price u2 - p0) p0)))\<rparr>
           else if js_ge (js_div (PriceUpdate.price u2 - p0) p0) (riseThreshold (config this2)) then
             Some \<lparr>TradeSignal.symbol = PriceUpdate.symbol u2, action = SELL,
                   percentage = sellPercentage (config this2),
                   reason = PriceRose (js_times100 (js_div (PriceUpdate.price u2 - p0) p0))\<rparr>
           else None, this3)"
    and i3: "initialPrices this3 = initialPrices this2"
    by blast
  have cfg: "config this2 = config this" using c1 c2 by simp
  have p1: "initialPrices this1 (PriceUpdate.symbol u1) = Some p0" using i1 assms(2) by simp
  have p2: "initialPrices this2 (PriceUpdate.symbol u1) = Some p0" using r2 assms(3) by simp
  have p3: "initialPrices this3 (PriceUpdate.symbol u1) = Some p0" using i3 p2 by simp
  from 1 obtain s1 where s1: "onUpdate this u1 = Inr (s1, this1)"
    and v1: "js_le (js_div (PriceUpdate.price u1 - p0) p0) (- dropThreshold (config this)) \<Longrightarrow>
             \<exists>a. s1 = Some a \<and> action a = BUY \<and> percentage a = buyPercentage (config this)"
    and w1: "\<not> js_le (js_div (PriceUpdate.price u1 - p0) p0) (- dropThreshold (config this)) \<Longrightarrow>
             js_ge (js_div (PriceUpdate.price u1 - p0) p0) (riseThreshold (config this)) \<Longrightarrow>
             \<exists>a. s1 = Some a \<and> action a = SELL \<and> percentage a = sellPercentage (config this)"
    by auto
  from 3 [unfolded cfg] obtain s2 where s2: "onUpdate this2 u2 = Inr (s2, this3)"
    and v2: "js_le (js_div (PriceUpdate.price u2 - p0) p0) (- dropThreshold (config this)) \<Longrightarrow>
             \<exists>a. s2 = Some a \<and> action a = BUY \<and> percentage a = buyPercentage (config this)"
    and w2: "\<not> js_le (js_div (PriceUpdate.price u2 - p0) p0) (- dropThreshold (config this)) \<Longrightarrow>
             js_ge (js_div (PriceUpdate.price u2 - p0) p0) (riseThreshold (config this)) \<Longrightarrow>
             \<exists>a. s2 = Some a \<and> action a = SELL \<and> percentage a = sellPercentage (config this)"
    by auto
  show ?thesis
    using s1 2 s2 p1 p2 p3 v1 v2 w1 w2 by blast
qed

theorem reference_price_fixed_signal_refires_witness:
  "\<exists>s1 s2 this1 this3 a b.
     onUpdate ex_seen (ex_update ''ETHUSDT'' 1800) = Inr (s1, this1) \<and>
     onUpdate this1 (ex_update ''ETHUSDT'' 1700) = Inr (s2, this3) \<and>
     initialPrices this3 ''ETHUSDT'' = Some 2000 \<and>
     s1 = Some a \<and> s2 = Some b \<and> action a = BUY \<and> action b = BUY \<and>
     percentage a = 10 / 100 \<and> percentage b = 10 / 100"
proof -
  have i: "initialPrices ex_seen (PriceUpdate.symbol (ex_update ''ETHUSDT'' 1800)) = Some 2000"
    by (simp add: ex_seen_def ex_update_def)
  have s: "PriceUpdate.symbol (ex_update ''ETHUSDT'' 1700) = PriceUpdate.symbol (ex_update ''ETHUSDT'' 1800)"
    by (simp add: ex_update_def)
  have d: "js_le (js_div (PriceUpdate.price (ex_update ''ETHUSDT'' 1800) - 2000) 2000)
             (- dropThreshold (config ex_seen)) \<and>
           js_le (js_div (PriceUpdate.price (ex_update ''ETHUSDT'' 1700) - 2000) 2000)
             (- dropThreshold (config ex_seen))"
    by (simp add: ex_seen_def ex_update_def js_div_def defaultConfig_def)
  from reference_price_fixed_signal_refires [OF ex_seen_inv i s, of "[]"] d show ?thesis
    by (simp add: ex_seen_def ex_update_def defaultConfig_def) blast
qed


section \<open>Properties of the engine\<close>

subsection \<open>The store\<close>

lemma deref_update:
  "deref (h[a := v]) b = (if b = a \<and> a < length h then Some v else deref h b)"
  by (auto simp add: deref_def)

lemma deref_Some_less: "deref h a = Some v \<Longrightarrow> a < length h"
  by (simp add: deref_def split: if_splits)

lemma deref_append: "a < length h \<Longrightarrow> deref (h @ h') a = deref h a"
  by (simp add: deref_def nth_append)

lemma deref_alloc_new: "deref (h @ [v]) (length h) = Some v"
  by (simp add: deref_def)

subsection \<open>Well-formed engines\<close>

lemma engine_wfD:
  assumes "engine_wf this"
  obtains pf es where "deref (store this) (portfolio this) = Some (PortfolioObj pf)"
    and "deref (store this) (assets pf) = Some (RecordObj es)"
    and "assetEntries this = es"
    and "\<And>k a. (k, a) \<in> set es \<Longrightarrow> \<exists>v. getAsset this a = Some v"
proof -
  from assms obtain pf where pf: "deref (store this) (portfolio this) = Some (PortfolioObj pf)"
    by (auto simp add: engine_wf_def split: option.splits obj.splits)
  with assms obtain es where es: "deref (store this) (assets pf) = Some (RecordObj es)"
    by (auto simp add: engine_wf_def split: option.splits obj.splits)
  from assms pf es have l: "list_all (\<lambda>(k, a). getAsset this a \<noteq> None) es"
    by (auto simp add: engine_wf_def)
  have "assetEntries this = es" using pf es by (simp add: assetEntries_def)
  moreover have "\<exists>v. getAsset this a = Some v" if "(k, a) \<in> set es" for k a
    using l that by (auto simp add: list_all_iff)
  ultimately show thesis using that pf es by blast
qed

lemma lookupAsset_valid:
  assumes "engine_wf this" and "lookupAsset this s = Some a"
  shows "\<exists>v. getAsset this a = Some v"
proof -
  from assms(1) obtain pf es where "assetEntries this = es"
    and v: "\<And>k a. (k, a) \<in> set es \<Longrightarrow> \<exists>v. getAsset this a = Some v"
    by (auto elim: engine_wfD)
  with assms(2) have "(s, a) \<in> set es" by (auto simp add: lookupAsset_def dest: map_of_SomeD)
  then show ?thesis by (rule v)
qed

subsection \<open>setCash\<close>

lemma setCash_fields [simp]:
  "portfolio (setCash this c) = portfolio this"
  "trades (setCash this c) = trades this"
  "riskLimits (setCash this c) = riskLimits this"
  "strategy (setCash this c) = strategy this"
  "length (store (setCash this c)) = length (store this)"
  by (simp_all add: setCash_def split: option.splits obj.splits)

lemma getCash_setCash: "engine_wf this \<Longrightarrow> getCash (setCash this c) = c"
  by (erule engine_wfD) (simp add: getCash_def setCash_def deref_update deref_Some_less)

lemma getAsset_setCash [simp]: "getAsset (setCash this c) a = getAsset this a"
  by (auto simp add: getAsset_def setCash_def deref_update split: option.splits obj.splits)

lemma getHoldings_setCash [simp]: "getHoldings (setCash this c) a = getHoldings this a"
  by (simp add: getHoldings_def)

lemma assetEntries_setCash [simp]: "assetEntries (setCash this c) = assetEntries this"
  by (auto simp add: assetEntries_def setCash_def deref_update split: option.splits obj.splits)

lemma engine_wf_setCash: "engine_wf this \<Longrightarrow> engine_wf (setCash this c)"
proof (erule engine_wfD)
  fix pf es
  assume pf: "deref (store this) (portfolio this) = Some (PortfolioObj pf)"
    and es: "deref (store this) (assets pf) = Some (RecordObj es)"
    and v: "\<And>k a. (k, a) \<in> set es \<Longrightarrow> \<exists>v. getAsset this a = Some v"
  have ne: "assets pf \<noteq> portfolio this" using pf es by auto
  have s: "store (setCash this c) = (store this)[portfolio this := PortfolioObj (pf\<lparr>cash := c\<rparr>)]"
    using pf by (simp add: setCash_def)
  have 1: "deref (store (setCash this c)) (portfolio this) = Some (PortfolioObj (pf\<lparr>cash := c\<rparr>))"
    using pf by (simp add: s deref_update deref_Some_less)
  have 2: "deref (store (setCash this c)) (assets pf) = Some (RecordObj es)"
    using es ne by (simp add: s deref_update)
  have "list_all (\<lambda>(k, a). getAsset (setCash this c) a \<noteq> None) es"
    using v by (fastforce simp add: list_all_iff)
  then show ?thesis
    using 1 2 by (simp add: engine_wf_def)
qed

lemma objectValues_setCash [simp]: "objectValues (setCash this c) = objectValues this"
  by (simp add: objectValues_def)

lemma lookupAsset_setCash [simp]: "lookupAsset (setCash this c) s = lookupAsset this s"
  by (simp add: lookupAsset_def)

subsection \<open>setHoldings\<close>

lemma setHoldings_fields [simp]:
  "portfolio (setHoldings this a x) = portfolio this"
  "trades (setHoldings this a x) = trades this"
  "riskLimits (setHoldings this a x) = riskLimits this"
  "strategy (setHoldings this a x) = strategy this"
  "length (store (setHoldings this a x)) = length (store this)"
  by (simp_all add: setHoldings_def split: option.splits)

lemma getAsset_Some_deref: "getAsset this a = Some v \<longleftrightarrow> deref (store this) a = Some (AssetObj v)"
  by (auto simp add: getAsset_def split: option.splits obj.splits)

lemma getAsset_setHoldings:
  "getAsset (setHoldings this a x) b =
     (if b = a then map_option (\<lambda>v. v\<lparr>holdings := x\<rparr>) (getAsset this a) else getAsset this b)"
proof (cases "getAsset this a")
  case None
  then show ?thesis by (simp add: setHoldings_def)
next
  case (Some v)
  then have "deref (store this) a = Some (AssetObj v)" by (simp add: getAsset_Some_deref)
  then show ?thesis using Some
    by (simp add: setHoldings_def getAsset_def deref_update deref_Some_less)
qed

lemma getHoldings_setHoldings_same:
  "getAsset this a = Some v \<Longrightarrow> getHoldings (setHoldings this a x) a = x"
  by (simp add: getHoldings_def getAsset_setHoldings)

lemma getHoldings_setHoldings_other:
  "b \<noteq> a \<Longrightarrow> getHoldings (setHoldings this a x) b = getHoldings this b"
  by (simp add: getHoldings_def getAsset_setHoldings)

lemma deref_setHoldings_other:
  "deref (store this) b \<noteq> None \<Longrightarrow> (\<And>v. deref (store this) b \<noteq> Some (AssetObj v)) \<Longrightarrow>
   deref (store (setHoldings this a x)) b = deref (store this) b"
  by (auto simp add: setHoldings_def getAsset_def deref_update split: option.splits obj.splits)

lemma getCash_setHoldings: "engine_wf this \<Longrightarrow> getCash (setHoldings this a x) = getCash this"
  by (erule engine_wfD) (simp add: getCash_def deref_setHoldings_other)

lemma assetEntries_setHoldings: "engine_wf this \<Longrightarrow> assetEntries (setHoldings this a x) = assetEntries this"
  by (erule engine_wfD) (simp add: assetEntries_def deref_setHoldings_other)

lemma engine_wf_setHoldings: "engine_wf this \<Longrightarrow> engine_wf (setHoldings this a x)"
proof (erule engine_wfD)
  fix pf es
  assume pf: "deref (store this) (portfolio this) = Some (PortfolioObj pf)"
    and es: "deref (store this) (assets pf) = Some (RecordObj es)"
    and v: "\<And>k a. (k, a) \<in> set es \<Longrightarrow> \<exists>v. getAsset this a = Some v"
  have 1: "deref (store (setHoldings this a x)) (portfolio this) = Some (PortfolioObj pf)"
    using pf by (simp add: deref_setHoldings_other)
  have 2: "deref (store (setHoldings this a x)) (assets pf) = Some (RecordObj es)"
    using es by (simp add: deref_setHoldings_other)
  have "list_all (\<lambda>(k, b). getAsset (setHoldings this a x) b \<noteq> None) es"
    using v by (fastforce simp add: list_all_iff getAsset_setHoldings)
  then show ?thesis
    using 1 2 by (simp add: engine_wf_def)
qed

lemma lookupAsset_setHoldings: "engine_wf this \<Longrightarrow> lookupAsset (setHoldings this a x) s = lookupAsset this s"
  by (simp add: lookupAsset_def assetEntries_setHoldings)

subsection \<open>pushTrade\<close>

lemma pushTrade_fields [simp]:
  "portfolio (pushTrade this t) = portfolio this"
  "trades (pushTrade this t) = trades this @ [t]"
  "riskLimits (pushTrade this t) = riskLimits this"
  "strategy (pushTrade this t) = strategy this"
  "store (pushTrade this t) = store this"
  by (simp_all add: pushTrade_def)

lemma pushTrade_reads [simp]:
  "getCash (pushTrade this t) = getCash this"
  "getAsset (pushTrade this t) a = getAsset this a"
  "getHoldings (pushTrade this t) a = getHoldings this a"
  "assetEntries (pushTrade this t) = assetEntries this"
  "lookupAsset (pushTrade this t) s = lookupAsset this s"
  "objectValues (pushTrade this t) = objectValues this"
  "engine_wf (pushTrade this t) = engine_wf this"
  by (simp_all add: getCash_def getAsset_def getHoldings_def assetEntries_def lookupAsset_def
      objectValues_def engine_wf_def cong: option.case_cong obj.case_cong)

lemma riskCheck_limits:
  "riskLimits this' = riskLimits this \<Longrightarrow> riskCheck this' s q p = riskCheck this s q p"
  by (simp add: riskCheck_def)

lemma buySlice_skip:
  "PriceUpdate.price update = 0 \<or>
   \<not> riskCheck this (TradeSignal.symbol signal) (sliceAmount / PriceUpdate.price update) (PriceUpdate.price update) \<Longrightarrow>
   buySlice signal update asset sliceAmount i this = this"
  by (auto simp add: buySlice_def js_div_def)

lemma buySlice_exec:
  assumes wf: "engine_wf this" and a: "getAsset this asset = Some v"
    and p: "PriceUpdate.price update \<noteq> 0"
    and r: "riskCheck this (TradeSignal.symbol signal) (sliceAmount / PriceUpdate.price update) (PriceUpdate.price update)"
  shows "getCash (buySlice signal update asset sliceAmount i this) = getCash this - sliceAmount"
    and "getHoldings (buySlice signal update asset sliceAmount i this) asset =
           getHoldings this asset + sliceAmount / PriceUpdate.price update"
    and "trades (buySlice signal update asset sliceAmount i this) =
           trades this @ [sliceTrade BUY signal update (sliceAmount / PriceUpdate.price update) i]"
proof -
  let ?this1 = "setCash this (getCash this - sliceAmount)"
  let ?this2 = "setHoldings ?this1 asset (getHoldings ?this1 asset + sliceAmount / PriceUpdate.price update)"
  have e: "buySlice signal update asset sliceAmount i this =
             pushTrade ?this2 (sliceTrade BUY signal update (sliceAmount / PriceUpdate.price update) i)"
    using p r by (simp add: buySlice_def js_div_def Let_def)
  have wf1: "engine_wf ?this1" by (rule engine_wf_setCash [OF wf])
  show "getCash (buySlice signal update asset sliceAmount i this) = getCash this - sliceAmount"
    by (simp add: e getCash_setHoldings [OF wf1] getCash_setCash [OF wf])
  have "getAsset ?this1 asset = Some v" using a by simp
  then show "getHoldings (buySlice signal update asset sliceAmount i this) asset =
           getHoldings this asset + sliceAmount / PriceUpdate.price update"
    by (simp add: e getHoldings_setHoldings_same)
  show "trades (buySlice signal update asset sliceAmount i this) =
           trades this @ [sliceTrade BUY signal update (sliceAmount / PriceUpdate.price update) i]"
    by (simp add: e)
qed

lemma buySlice_preserves:
  assumes wf: "engine_wf this"
  shows "engine_wf (buySlice signal update asset sliceAmount i this)"
    and "riskLimits (buySlice signal update asset sliceAmount i this) = riskLimits this"
    and "strategy (buySlice signal update asset sliceAmount i this) = strategy this"
    and "portfolio (buySlice signal update asset sliceAmount i this) = portfolio this"
    and "assetEntries (buySlice signal update asset sliceAmount i this) = assetEntries this"
    and "length (store (buySlice signal update asset sliceAmount i this)) = length (store this)"
    and "getAsset (buySlice signal update asset sliceAmount i this) b = None \<longleftrightarrow> getAsset this b = None"
  using wf
  by (simp_all add: buySlice_def Let_def engine_wf_setHoldings engine_wf_setCash
      assetEntries_setHoldings getAsset_setHoldings split: jsnum.splits)

lemma buyLoop_char:
  assumes "engine_wf this" and "getAsset this asset \<noteq> None" and "i \<le> 5"
  shows "\<exists>k. i + k \<le> 5 \<and>
      trades (buyLoop signal update asset sliceAmount i this) =
        trades this @ map (sliceTrade BUY signal update (sliceAmount / PriceUpdate.price update)) [i..<i + k] \<and>
      getCash (buyLoop signal update asset sliceAmount i this) = getCash this - real k * sliceAmount \<and>
      getHoldings (buyLoop signal update asset sliceAmount i this) asset =
        getHoldings this asset + real k * (sliceAmount / PriceUpdate.price update) \<and>
      (\<forall>j<k. sliceAmount \<le> getCash this - real j * sliceAmount) \<and>
      (PriceUpdate.price update \<noteq> 0 \<and>
       riskCheck this (TradeSignal.symbol signal) (sliceAmount / PriceUpdate.price update) (PriceUpdate.price update) \<and>
       i + k < 5 \<longrightarrow> getCash (buyLoop signal update asset sliceAmount i this) < sliceAmount) \<and>
      (\<not> (PriceUpdate.price update \<noteq> 0 \<and>
       riskCheck this (TradeSignal.symbol signal) (sliceAmount / PriceUpdate.price update) (PriceUpdate.price update)) \<longrightarrow>
         buyLoop signal update asset sliceAmount i this = this) \<and>
      engine_wf (buyLoop signal update asset sliceAmount i this) \<and>
      riskLimits (buyLoop signal update asset sliceAmount i this) = riskLimits this \<and>
      strategy (buyLoop signal update asset sliceAmount i this) = strategy this \<and>
      portfolio (buyLoop signal update asset sliceAmount i this) = portfolio this \<and>
      assetEntries (buyLoop signal update asset sliceAmount i this) = assetEntries this \<and>
      length (store (buyLoop signal update asset sliceAmount i this)) = length (store this)"
  using assms
proof (induction signal update asset sliceAmount i this rule: buyLoop.induct)
  case (1 signal update asset sliceAmount i this)
  let ?q = "sliceAmount / PriceUpdate.price update"
  let ?ok = "\<lambda>this. PriceUpdate.price update \<noteq> 0 \<and>
       riskCheck this (TradeSignal.symbol signal) ?q (PriceUpdate.price update)"
  let ?this' = "buySlice signal update asset sliceAmount i this"
  show ?case
  proof (cases "i < 5 \<and> \<not> getCash this < sliceAmount")
    case False
    then have e: "buyLoop signal update asset sliceAmount i this = this"
      by (subst buyLoop.simps) auto
    from False "1.prems"(3) have "i = 5 \<or> getCash this < sliceAmount" by auto
    then show ?thesis
      unfolding e using "1.prems" by (intro exI [of _ 0]) auto
  next
    case True
    then have lt: "i < 5" and enough: "sliceAmount \<le> getCash this" by auto
    have e: "buyLoop signal update asset sliceAmount i this =
               buyLoop signal update asset sliceAmount (i + 1) ?this'"
      using True by (subst buyLoop.simps) simp
    note pres = buySlice_preserves [OF "1.prems"(1), of signal update asset sliceAmount i]
    have a': "getAsset ?this' asset \<noteq> None" using "1.prems"(2) pres(7) by simp
    have rk: "?ok ?this' = ?ok this" using pres(2) by (simp add: riskCheck_def)
    have ng: "\<not> getCash this < sliceAmount" using True by simp
    have le: "i + 1 \<le> 5" using lt by simp
    from "1.IH" [OF lt ng pres(1) a' le] obtain k where
      k: "i + 1 + k \<le> 5"
      and tr: "trades (buyLoop signal update asset sliceAmount (i + 1) ?this') =
                 trades ?this' @ map (sliceTrade BUY signal update ?q) [i + 1..<i + 1 + k]"
      and ca: "getCash (buyLoop signal update asset sliceAmount (i + 1) ?this') =
                 getCash ?this' - real k * sliceAmount"
      and ho: "getHoldings (buyLoop signal update asset sliceAmount (i + 1) ?this') asset =
                 getHoldings ?this' asset + real k * ?q"
      and al: "\<forall>j<k. sliceAmount \<le> getCash ?this' - real j * sliceAmount"
      and st: "?ok ?this' \<and> i + 1 + k < 5 \<longrightarrow>
                 getCash (buyLoop signal update asset sliceAmount (i + 1) ?this') < sliceAmount"
      and no: "\<not> ?ok ?this' \<longrightarrow> buyLoop signal update asset sliceAmount (i + 1) ?this' = ?this'"
      and rest: "engine_wf (buyLoop signal update asset sliceAmount (i + 1) ?this')"
        "riskLimits (buyLoop signal update asset sliceAmount (i + 1) ?this') = riskLimits ?this'"
        "strategy (buyLoop signal update asset sliceAmount (i + 1) ?this') = strategy ?this'"
        "portfolio (buyLoop signal update asset sliceAmount (i + 1) ?this') = portfolio ?this'"
        "assetEntries (buyLoop signal update asset sliceAmount (i + 1) ?this') = assetEntries ?this'"
        "length (store (buyLoop signal update asset sliceAmount (i + 1) ?this')) = length (store ?this')"
      by blast
    show ?thesis
    proof (cases "?ok this")
      case False
      then have s: "?this' = this" by (intro buySlice_skip) auto
      from False no rk have "buyLoop signal update asset sliceAmount (i + 1) ?this' = ?this'" by simp
      then have e': "buyLoop signal update asset sliceAmount i this = this" using e s by simp
      show ?thesis
        unfolding e' using "1.prems" False by (intro exI [of _ 0]) auto
    next
      case ok: True
      from "1.prems"(2) obtain v where v: "getAsset this asset = Some v" by auto
      note ex = buySlice_exec [OF "1.prems"(1) v, of update signal sliceAmount i]
      have c1: "getCash ?this' = getCash this - sliceAmount" using ok ex(1) by simp
      have h1: "getHoldings ?this' asset = getHoldings this asset + ?q" using ok ex(2) by simp
      have t1: "trades ?this' = trades this @ [sliceTrade BUY signal update ?q i]" using ok ex(3) by simp
      have up: "[i..<i + Suc k] = i # [i + 1..<i + 1 + k]"
        by (simp add: upt_rec)
      have A: "trades (buyLoop signal update asset sliceAmount i this) =
                 trades this @ map (sliceTrade BUY signal update ?q) [i..<i + Suc k]"
        unfolding e tr t1 up by simp
      have B: "getCash (buyLoop signal update asset sliceAmount i this) =
                 getCash this - real (Suc k) * sliceAmount"
        unfolding e ca c1 by (simp add: algebra_simps)
      have C: "getHoldings (buyLoop signal update asset sliceAmount i this) asset =
                 getHoldings this asset + real (Suc k) * ?q"
        unfolding e ho h1 by (simp add: algebra_simps add_divide_distrib)
      have D: "\<forall>j<Suc k. sliceAmount \<le> getCash this - real j * sliceAmount"
      proof (intro allI impI)
        fix j assume j: "j < Suc k"
        show "sliceAmount \<le> getCash this - real j * sliceAmount"
        proof (cases j)
          case 0
          then show ?thesis using enough by simp
        next
          case (Suc j')
          with j have "j' < k" by simp
          with al have "sliceAmount \<le> getCash ?this' - real j' * sliceAmount" by blast
          then show ?thesis unfolding c1 Suc by (simp add: algebra_simps)
        qed
      qed
      have E: "?ok this \<and> i + Suc k < 5 \<longrightarrow>
                 getCash (buyLoop signal update asset sliceAmount i this) < sliceAmount"
        using st rk unfolding e by simp
      have F: "i + Suc k \<le> 5" using k by simp
      show ?thesis
        using A B C D E F ok rest pres unfolding e by (intro exI [of _ "Suc k"]) simp
    qed
  qed
qed

lemma buyLoop_break:
  "getCash this < sliceAmount \<Longrightarrow> buyLoop signal update asset sliceAmount i this = this"
  by (subst buyLoop.simps) simp


text \<open>
  Claim C1. \<open>executeBuy\<close> on a well-formed engine with \<open>cash >= 0\<close>: the slices that
  execute are the first \<open>k <= 5\<close> iterations, each of them found
  \<open>cash >= sliceAmount\<close> and debited \<open>sliceAmount\<close>; when fewer than 5 execute although
  the asset exists and the risk check accepts the slice, the loop stopped because cash
  was below \<open>sliceAmount\<close>; the loop leaves the engine as it is from any iteration at
  which cash is below \<open>sliceAmount\<close>; and cash is \<open>>= 0\<close> after the loop. The other
  hypotheses of the claim (holdings, prices and percentage \<open>>= 0\<close>, \<open>update.price > 0\<close>)
  are not needed.
\<close>

theorem executeBuy_stops_when_cash_short:
  assumes wf: "engine_wf this" and cash: "0 \<le> getCash this"
    and slice: "sliceAmount = calculateTotalValue this (Some update) * percentage signal / 5"
  shows "\<exists>k\<le>5.
      trades (executeBuy this signal update) =
        trades this @ map (sliceTrade BUY signal update (sliceAmount / PriceUpdate.price update)) [0..<k] \<and>
      getCash (executeBuy this signal update) = getCash this - real k * sliceAmount \<and>
      (\<forall>j<k. sliceAmount \<le> getCash this - real j * sliceAmount) \<and>
      (k < 5 \<and> lookupAsset this (TradeSignal.symbol signal) \<noteq> None \<and>
       PriceUpdate.price update \<noteq> 0 \<and>
       riskCheck this (TradeSignal.symbol signal) (sliceAmount / PriceUpdate.price update)
         (PriceUpdate.price update) \<longrightarrow>
         getCash (executeBuy this signal update) < sliceAmount) \<and>
      (\<forall>asset i that. getCash that < sliceAmount \<longrightarrow>
         buyLoop signal update asset sliceAmount i that = that) \<and>
      0 \<le> getCash (executeBuy this signal update)"
proof (cases "lookupAsset this (TradeSignal.symbol signal)")
  case None
  then have e: "executeBuy this signal update = this" by (simp add: executeBuy_def)
  show ?thesis
    unfolding e using cash None by (intro exI [of _ 0]) (simp add: buyLoop_break)
next
  case (Some asset)
  then have e: "executeBuy this signal update = buyLoop signal update asset sliceAmount 0 this"
    by (simp add: executeBuy_def slice Let_def)
  from lookupAsset_valid [OF wf Some] have a: "getAsset this asset \<noteq> None" by auto
  have z: "(0::nat) \<le> 5" by simp
  from buyLoop_char [OF wf a z, of signal update sliceAmount] obtain k where
    k: "0 + k \<le> 5"
    and tr: "trades (buyLoop signal update asset sliceAmount 0 this) =
        trades this @ map (sliceTrade BUY signal update (sliceAmount / PriceUpdate.price update)) [0..<0 + k]"
    and ca: "getCash (buyLoop signal update asset sliceAmount 0 this) = getCash this - real k * sliceAmount"
    and al: "\<forall>j<k. sliceAmount \<le> getCash this - real j * sliceAmount"
    and st: "PriceUpdate.price update \<noteq> 0 \<and>
       riskCheck this (TradeSignal.symbol signal) (sliceAmount / PriceUpdate.price update) (PriceUpdate.price update) \<and>
       0 + k < 5 \<longrightarrow> getCash (buyLoop signal update asset sliceAmount 0 this) < sliceAmount"
    by blast
  have nn: "0 \<le> getCash this - real k * sliceAmount"
  proof (cases k)
    case 0
    then show ?thesis using cash by simp
  next
    case (Suc j)
    then have "sliceAmount \<le> getCash this - real j * sliceAmount" using al by simp
    then show ?thesis unfolding Suc by (simp add: algebra_simps)
  qed
  show ?thesis
    unfolding e using k tr ca al st nn by (intro exI [of _ k]) (simp add: buyLoop_break)
qed

theorem executeBuy_stops_when_cash_short_witness:
  "engine_wf eng_buy \<and> 0 \<le> getCash eng_buy \<and>
   calculateTotalValue eng_buy (Some (ex_update ''X'' 210)) * percentage sig_buy / 5 = 620 \<and>
   trades (executeBuy eng_buy sig_buy (ex_update ''X'' 210)) =
     [sliceTrade BUY sig_buy (ex_update ''X'' 210) (620 / 210) 0] \<and>
   getCash (executeBuy eng_buy sig_buy (ex_update ''X'' 210)) = 380 \<and>
   0 \<le> getCash (executeBuy eng_buy sig_buy (ex_update ''X'' 210))"
proof -
  have wf: "engine_wf eng_buy" by code_simp
  have c: "0 \<le> getCash eng_buy" by code_simp
  have s: "calculateTotalValue eng_buy (Some (ex_update ''X'' 210)) * percentage sig_buy / 5 = 620"
    by code_simp
  have t: "trades (executeBuy eng_buy sig_buy (ex_update ''X'' 210)) =
     [sliceTrade BUY sig_buy (ex_update ''X'' 210) (620 / 210) 0]"
    by code_simp
  have g: "getCash (executeBuy eng_buy sig_buy (ex_update ''X'' 210)) = 380" by code_simp
  from executeBuy_stops_when_cash_short [OF wf c refl, of sig_buy "ex_update ''X'' 210"]
  show ?thesis using wf c s t g by blast
qed



lemma sellSlice_preserves:
  assumes wf: "engine_wf this"
  shows "engine_wf (sellSlice signal update asset q i this)"
    and "riskLimits (sellSlice signal update asset q i this) = riskLimits this"
    and "strategy (sellSlice signal update asset q i this) = strategy this"
    and "portfolio (sellSlice signal update asset q i this) = portfolio this"
    and "assetEntries (sellSlice signal update asset q i this) = assetEntries this"
    and "length (store (sellSlice signal update asset q i this)) = length (store this)"
    and "getAsset (sellSlice signal update asset q i this) b = None \<longleftrightarrow> getAsset this b = None"
  using wf
  by (simp_all add: sellSlice_def Let_def engine_wf_setHoldings engine_wf_setCash
      assetEntries_setHoldings getAsset_setHoldings)







text \<open>
  Claim C3. \<open>riskCheck\<close> returns a boolean and no state; it is true exactly when
  \<open>quantity * price <= maxTradeSize\<close> and \<open>quantity <= maxPositionSize\<close>, so it is false
  whenever \<open>quantity * price > maxTradeSize\<close> and whenever
  \<open>quantity > maxPositionSize\<close>; it depends on the risk limits only, not on the symbol
  or on anything else in the engine.
\<close>

theorem riskCheck_pure_predicate:
  "(riskCheck this symb qty prc \<longleftrightarrow>
      qty * prc \<le> maxTradeSize (riskLimits this) \<and> qty \<le> maxPositionSize (riskLimits this)) \<and>
   (qty * prc > maxTradeSize (riskLimits this) \<longrightarrow> \<not> riskCheck this symb qty prc) \<and>
   (qty > maxPositionSize (riskLimits this) \<longrightarrow> \<not> riskCheck this symb qty prc) \<and>
   (riskLimits that = riskLimits this \<longrightarrow>
      riskCheck that symb' qty prc = riskCheck this symb qty prc)"
  by (auto simp add: riskCheck_def)

theorem riskCheck_pure_predicate_witness:
  "\<not> riskCheck eng_buy ''X'' 50 210 \<and> riskCheck eng_buy ''X'' 40 210 \<and>
   riskCheck eng_sell ''Y'' 40 210 = riskCheck (setCash eng_sell 5) ''X'' 40 210"
proof -
  have 1: "50 * 210 > maxTradeSize (riskLimits eng_buy)" by (simp add: eng_buy_def)
  have 2: "40 * 210 \<le> maxTradeSize (riskLimits eng_buy) \<and> 40 \<le> maxPositionSize (riskLimits eng_buy)"
    by (simp add: eng_buy_def)
  have 3: "riskLimits (setCash eng_sell 5) = riskLimits eng_sell" by simp
  from riskCheck_pure_predicate [of eng_buy "''X''" 50 210] 1
    riskCheck_pure_predicate [of eng_buy "''X''" 40 210] 2
    riskCheck_pure_predicate [of eng_sell "''Y''" 40 210 "setCash eng_sell 5" "''X''"] 3
  show ?thesis by blast
qed


text \<open>The engine never reads the strategy outside processUpdate.\<close>

lemma strategy_update_prims:
  "getCash (this\<lparr>strategy := s\<rparr>) = getCash this"
  "getAsset (this\<lparr>strategy := s\<rparr>) a = getAsset this a"
  "getHoldings (this\<lparr>strategy := s\<rparr>) a = getHoldings this a"
  "assetEntries (this\<lparr>strategy := s\<rparr>) = assetEntries this"
  "lookupAsset (this\<lparr>strategy := s\<rparr>) k = lookupAsset this k"
  "objectValues (this\<lparr>strategy := s\<rparr>) = objectValues this"
  "engine_wf (this\<lparr>strategy := s\<rparr>) = engine_wf this"
  "riskCheck (this\<lparr>strategy := s\<rparr>) k q p = riskCheck this k q p"
  "calculateTotalValue (this\<lparr>strategy := s\<rparr>) u = calculateTotalValue this u"
  "calculateInitialValue (this\<lparr>strategy := s\<rparr>) = calculateInitialValue this"
  "setCash (this\<lparr>strategy := s\<rparr>) c = (setCash this c)\<lparr>strategy := s\<rparr>"
  "setHoldings (this\<lparr>strategy := s\<rparr>) a x = (setHoldings this a x)\<lparr>strategy := s\<rparr>"
  "pushTrade (this\<lparr>strategy := s\<rparr>) t = (pushTrade this t)\<lparr>strategy := s\<rparr>"
  by (simp_all add: getCash_def getAsset_def getHoldings_def assetEntries_def lookupAsset_def
      objectValues_def engine_wf_def riskCheck_def calculateTotalValue_def
      calculateInitialValue_def setCash_def setHoldings_def pushTrade_def
      cong: option.case_cong obj.case_cong split: option.splits obj.splits)

lemma buySlice_strategy:
  "buySlice signal update asset sl i (this\<lparr>strategy := s\<rparr>) =
     (buySlice signal update asset sl i this)\<lparr>strategy := s\<rparr>"
  by (simp add: buySlice_def strategy_update_prims Let_def split: jsnum.splits)

lemma sellSlice_strategy:
  "sellSlice signal update asset q i (this\<lparr>strategy := s\<rparr>) =
     (sellSlice signal update asset q i this)\<lparr>strategy := s\<rparr>"
  by (simp add: sellSlice_def strategy_update_prims Let_def)

lemma buyLoop_strategy:
  "buyLoop signal update asset sl i (this\<lparr>strategy := s\<rparr>) =
     (buyLoop signal update asset sl i this)\<lparr>strategy := s\<rparr>"
proof (induction signal update asset sl i this rule: buyLoop.induct)
  case (1 signal update asset sl i this)
  show ?case
  proof (cases "i < 5 \<and> \<not> getCash this < sl")
    case True
    then show ?thesis
      using "1.IH"
      by (subst buyLoop.simps, subst (2) buyLoop.simps)
         (simp add: strategy_update_prims buySlice_strategy)
  next
    case False
    then show ?thesis
      by (subst buyLoop.simps, subst (2) buyLoop.simps) (auto simp add: strategy_update_prims)
  qed
qed

lemma sellLoop_strategy:
  "sellLoop signal update asset q i (this\<lparr>strategy := s\<rparr>) =
     (sellLoop signal update asset q i this)\<lparr>strategy := s\<rparr>"
proof (induction signal update asset q i this rule: sellLoop.induct)
  case (1 signal update asset q i this)
  show ?case
  proof (cases "i < 5")
    case True
    then show ?thesis
      using "1.IH"
      by (subst sellLoop.simps, subst (2) sellLoop.simps) (simp add: sellSlice_strategy)
  next
    case False
    then show ?thesis
      by (subst sellLoop.simps, subst (2) sellLoop.simps) simp
  qed
qed

lemma executeBuy_strategy:
  "executeBuy (this\<lparr>strategy := s\<rparr>) signal update = (executeBuy this signal update)\<lparr>strategy := s\<rparr>"
  by (simp add: executeBuy_def strategy_update_prims buyLoop_strategy Let_def split: option.splits)

lemma executeSell_strategy:
  "executeSell (this\<lparr>strategy := s\<rparr>) signal update = (executeSell this signal update)\<lparr>strategy := s\<rparr>"
  by (simp add: executeSell_def strategy_update_prims sellLoop_strategy Let_def split: option.splits)

lemma executeBuy_strategy_same: "strategy (executeBuy this signal update) = strategy this"
proof -
  have "executeBuy this signal update = executeBuy (this\<lparr>strategy := strategy this\<rparr>) signal update"
    by simp
  also have "\<dots> = (executeBuy this signal update)\<lparr>strategy := strategy this\<rparr>"
    by (rule executeBuy_strategy)
  finally have "strategy (executeBuy this signal update) =
      strategy ((executeBuy this signal update)\<lparr>strategy := strategy this\<rparr>)" by simp
  then show ?thesis by simp
qed

lemma executeSell_strategy_same: "strategy (executeSell this signal update) = strategy this"
proof -
  have "executeSell this signal update = executeSell (this\<lparr>strategy := strategy this\<rparr>) signal update"
    by simp
  also have "\<dots> = (executeSell this signal update)\<lparr>strategy := strategy this\<rparr>"
    by (rule executeSell_strategy)
  finally have "strategy (executeSell this signal update) =
      strategy ((executeSell this signal update)\<lparr>strategy := strategy this\<rparr>)" by simp
  then show ?thesis by simp
qed




lemma buySlice_trades:
  "trades (buySlice signal update asset sl i this) = trades this \<or>
   trades (buySlice signal update asset sl i this) =
     trades this @ [sliceTrade BUY signal update (sl / PriceUpdate.price update) i]"
  by (auto simp add: buySlice_def js_div_def Let_def)

lemma buyLoop_trades:
  "\<exists>ts. trades (buyLoop signal update asset sl i this) = trades this @ ts \<and>
        length ts \<le> 5 - i \<and>
        (\<forall>t\<in>set ts. \<exists>j. t = sliceTrade BUY signal update (sl / PriceUpdate.price update) j)"
proof (induction signal update asset sl i this rule: buyLoop.induct)
  case (1 signal update asset sl i this)
  show ?case
  proof (cases "i < 5 \<and> \<not> getCash this < sl")
    case False
    then have "buyLoop signal update asset sl i this = this"
      by (subst buyLoop.simps) auto
    then show ?thesis by simp
  next
    case True
    then have e: "buyLoop signal update asset sl i this =
        buyLoop signal update asset sl (i + 1) (buySlice signal update asset sl i this)"
      by (subst buyLoop.simps) simp
    from True have lt: "i < 5" and ng: "\<not> getCash this < sl" by auto
    from "1.IH" [OF lt ng] obtain ts where
      ts: "trades (buyLoop signal update asset sl (i + 1) (buySlice signal update asset sl i this)) =
             trades (buySlice signal update asset sl i this) @ ts"
        "length ts \<le> 5 - (i + 1)"
        "\<forall>t\<in>set ts. \<exists>j. t = sliceTrade BUY signal update (sl / PriceUpdate.price update) j"
      by blast
    from buySlice_trades [of signal update asset sl i this] show ?thesis
    proof
      assume "trades (buySlice signal update asset sl i this) = trades this"
      with ts lt show ?thesis unfolding e by (intro exI [of _ ts]) simp
    next
      assume "trades (buySlice signal update asset sl i this) =
        trades this @ [sliceTrade BUY signal update (sl / PriceUpdate.price update) i]"
      with ts lt show ?thesis unfolding e
        by (intro exI [of _ "sliceTrade BUY signal update (sl / PriceUpdate.price update) i # ts"]) auto
    qed
  qed
qed

lemma sellSlice_trades:
  "trades (sellSlice signal update asset q i this) = trades this \<or>
   (\<exists>x. x \<le> q \<and> trades (sellSlice signal update asset q i this) =
     trades this @ [sliceTrade SELL signal update x i])"
proof (cases "trades (sellSlice signal update asset q i this) = trades this")
  case True
  then show ?thesis by simp
next
  case False
  then have "trades (sellSlice signal update asset q i this) =
     trades this @ [sliceTrade SELL signal update (min q (getHoldings this asset)) i]"
    by (auto simp add: sellSlice_def Let_def split: if_splits)
  moreover have "min q (getHoldings this asset) \<le> q" by simp
  ultimately show ?thesis by blast
qed

lemma sellLoop_trades:
  "\<exists>ts. trades (sellLoop signal update asset q i this) = trades this @ ts \<and>
        length ts \<le> 5 - i \<and>
        (\<forall>t\<in>set ts. \<exists>j x. x \<le> q \<and> t = sliceTrade SELL signal update x j)"
proof (induction signal update asset q i this rule: sellLoop.induct)
  case (1 signal update asset q i this)
  show ?case
  proof (cases "i < 5")
    case False
    then have "sellLoop signal update asset q i this = this"
      by (subst sellLoop.simps) auto
    then show ?thesis by simp
  next
    case lt: True
    then have e: "sellLoop signal update asset q i this =
        sellLoop signal update asset q (i + 1) (sellSlice signal update asset q i this)"
      by (subst sellLoop.simps) simp
    from "1.IH" [OF lt] obtain ts where
      ts: "trades (sellLoop signal update asset q (i + 1) (sellSlice signal update asset q i this)) =
             trades (sellSlice signal update asset q i this) @ ts"
        "length ts \<le> 5 - (i + 1)"
        "\<forall>t\<in>set ts. \<exists>j x. x \<le> q \<and> t = sliceTrade SELL signal update x j"
      by blast
    from sellSlice_trades [of signal update asset q i this] show ?thesis
    proof
      assume "trades (sellSlice signal update asset q i this) = trades this"
      with ts lt show ?thesis unfolding e by (intro exI [of _ ts]) simp
    next
      assume "\<exists>x. x \<le> q \<and> trades (sellSlice signal update asset q i this) =
        trades this @ [sliceTrade SELL signal update x i]"
      then obtain x where "x \<le> q" "trades (sellSlice signal update asset q i this) =
        trades this @ [sliceTrade SELL signal update x i]" by blast
      with ts lt show ?thesis unfolding e
        by (intro exI [of _ "sliceTrade SELL signal update x i # ts"]) auto
    qed
  qed
qed

lemma executeBuy_trades:
  "\<exists>ts. trades (executeBuy this signal update) = trades this @ ts \<and> length ts \<le> 5 \<and>
     (\<forall>t\<in>set ts. \<exists>j. t = sliceTrade BUY signal update
        (calculateTotalValue this (Some update) * percentage signal / 5 / PriceUpdate.price update) j)"
proof (cases "lookupAsset this (TradeSignal.symbol signal)")
  case None
  then show ?thesis by (simp add: executeBuy_def)
next
  case (Some asset)
  from buyLoop_trades [of signal update asset
      "calculateTotalValue this (Some update) * percentage signal / 5" 0 this]
  show ?thesis using Some by (simp add: executeBuy_def Let_def)
qed

lemma executeSell_trades:
  "\<exists>ts. trades (executeSell this signal update) = trades this @ ts \<and> length ts \<le> 5 \<and>
     (\<forall>t\<in>set ts. \<exists>j x asset. lookupAsset this (TradeSignal.symbol signal) = Some asset \<and>
        x \<le> getHoldings this asset * percentage signal / 5 \<and>
        t = sliceTrade SELL signal update x j)"
proof (cases "lookupAsset this (TradeSignal.symbol signal)")
  case None
  then show ?thesis by (simp add: executeSell_def)
next
  case (Some asset)
  show ?thesis
  proof (cases "getHoldings this asset \<le> 0")
    case True
    then show ?thesis using Some by (simp add: executeSell_def)
  next
    case False
    from sellLoop_trades [of signal update asset "getHoldings this asset * percentage signal / 5" 0 this]
    show ?thesis using Some False by (simp add: executeSell_def Let_def)
  qed
qed

lemma processUpdate_trades:
  assumes "processUpdate this update = Inr this'"
  shows "\<exists>ts. trades this' = trades this @ ts \<and> length ts \<le> 5 \<and>
           (\<forall>t\<in>set ts. Trade.price t = PriceUpdate.price update)"
proof -
  have p: "Trade.price (sliceTrade sd sg update x j) = PriceUpdate.price update" for sd sg x j
    by (simp add: sliceTrade_def)
  from assms obtain sg st' where o: "onUpdate (strategy this) update = Inr (sg, st')"
    by (auto simp add: processUpdate_def split: sum.splits)
  show ?thesis
  proof (cases sg)
    case None
    with assms o have "this' = this\<lparr>strategy := st'\<rparr>" by (simp add: processUpdate_def)
    then show ?thesis by simp
  next
    case (Some s)
    show ?thesis
    proof (cases "action s = BUY")
      case True
      with assms o Some have e: "this' = executeBuy (this\<lparr>strategy := st'\<rparr>) s update"
        by (simp add: processUpdate_def)
      from executeBuy_trades [of "this\<lparr>strategy := st'\<rparr>" s update] show ?thesis
        unfolding e using p by fastforce
    next
      case False
      with assms o Some have e: "this' = executeSell (this\<lparr>strategy := st'\<rparr>) s update"
        by (simp add: processUpdate_def)
      from executeSell_trades [of "this\<lparr>strategy := st'\<rparr>" s update] show ?thesis
        unfolding e using p by fastforce
    qed
  qed
qed












lemma evolves_refl: "evolves this this"
  by (simp add: evolves_def)

lemma evolves_writable: "evolves this this' \<Longrightarrow> writable this' = writable this"
  by (simp add: evolves_def writable_def)

lemma evolves_trans:
  assumes "evolves a b" and "evolves b c"
  shows "evolves a c"
proof -
  from assms(1) have w: "writable b = writable a" by (rule evolves_writable)
  from assms have "\<forall>x. x \<notin> writable a \<longrightarrow> deref (store c) x = deref (store a) x"
    unfolding evolves_def w by simp
  moreover from assms have "\<exists>ts. trades c = trades a @ ts"
    unfolding evolves_def by auto
  ultimately show ?thesis using assms unfolding evolves_def by simp
qed

lemma map_filter_getAsset_cong:
  assumes "\<And>b. map_option f (g' b) = map_option f (g b)"
  shows "map f (List.map_filter (\<lambda>(k, b). g' b) es) = map f (List.map_filter (\<lambda>(k, b). g b) es)"
proof (induction es)
  case Nil
  show ?case by (simp add: List.map_filter_simps)
next
  case (Cons e es)
  obtain k b where e: "e = (k, b)" by (cases e)
  from assms [of b] Cons show ?case
    by (cases "g b"; cases "g' b") (simp_all add: e List.map_filter_simps)
qed

lemma deref_setCash_other:
  "a \<noteq> portfolio this \<Longrightarrow> deref (store (setCash this c)) a = deref (store this) a"
  by (simp add: setCash_def deref_update split: option.splits obj.splits)

lemma deref_setHoldings_frame:
  "a \<noteq> b \<Longrightarrow> deref (store (setHoldings this b x)) a = deref (store this) a"
  by (simp add: setHoldings_def deref_update split: option.splits)

lemma setCash_evolves: "evolves this (setCash this c)"
  by (simp add: evolves_def writable_def deref_setCash_other)

lemma setHoldings_evolves:
  assumes wf: "engine_wf this" and a: "a \<in> snd ` set (assetEntries this)"
  shows "evolves this (setHoldings this a x)"
proof -
  have e: "assetEntries (setHoldings this a x) = assetEntries this"
    by (rule assetEntries_setHoldings [OF wf])
  have p: "map Asset.price (objectValues (setHoldings this a x)) = map Asset.price (objectValues this)"
    unfolding objectValues_def e
    by (rule map_filter_getAsset_cong) (simp add: getAsset_setHoldings option.map_comp o_def)
  have s: "map Asset.symbol (objectValues (setHoldings this a x)) = map Asset.symbol (objectValues this)"
    unfolding objectValues_def e
    by (rule map_filter_getAsset_cong) (simp add: getAsset_setHoldings option.map_comp o_def)
  have f: "\<forall>b. b \<notin> writable this \<longrightarrow> deref (store (setHoldings this a x)) b = deref (store this) b"
  proof (intro allI impI)
    fix b assume "b \<notin> writable this"
    with a have "b \<noteq> a" by (auto simp add: writable_def)
    then show "deref (store (setHoldings this a x)) b = deref (store this) b"
      by (rule deref_setHoldings_frame)
  qed
  show ?thesis using e p s f by (simp add: evolves_def)
qed

lemma pushTrade_evolves: "evolves this (pushTrade this t)"
  by (simp add: evolves_def)

lemma strategy_update_evolves: "evolves this (this\<lparr>strategy := s\<rparr>)"
  by (simp add: evolves_def strategy_update_prims)

lemma buySlice_evolves:
  assumes wf: "engine_wf this" and a: "asset \<in> snd ` set (assetEntries this)"
  shows "evolves this (buySlice signal update asset sl i this)"
proof (cases "buySlice signal update asset sl i this = this")
  case True
  then show ?thesis by (simp add: evolves_refl)
next
  case False
  let ?q = "sl / PriceUpdate.price update"
  let ?this1 = "setCash this (getCash this - sl)"
  let ?this2 = "setHoldings ?this1 asset (getHoldings ?this1 asset + ?q)"
  from False have e: "buySlice signal update asset sl i this =
      pushTrade ?this2 (sliceTrade BUY signal update ?q i)"
    by (auto simp add: buySlice_def js_div_def Let_def split: if_splits)
  have 1: "evolves this ?this1" by (rule setCash_evolves)
  have wf1: "engine_wf ?this1" by (rule engine_wf_setCash [OF wf])
  have "asset \<in> snd ` set (assetEntries ?this1)" using a by simp
  then have 2: "evolves ?this1 ?this2" by (rule setHoldings_evolves [OF wf1])
  have 3: "evolves ?this2 (pushTrade ?this2 (sliceTrade BUY signal update ?q i))"
    by (rule pushTrade_evolves)
  show ?thesis unfolding e by (rule evolves_trans [OF evolves_trans [OF 1 2] 3])
qed

lemma sellSlice_evolves:
  assumes wf: "engine_wf this" and a: "asset \<in> snd ` set (assetEntries this)"
  shows "evolves this (sellSlice signal update asset q i this)"
proof (cases "sellSlice signal update asset q i this = this")
  case True
  then show ?thesis by (simp add: evolves_refl)
next
  case False
  let ?m = "min q (getHoldings this asset)"
  let ?this1 = "setHoldings this asset (getHoldings this asset - ?m)"
  let ?this2 = "setCash ?this1 (getCash ?this1 + ?m * PriceUpdate.price update)"
  from False have e: "sellSlice signal update asset q i this =
      pushTrade ?this2 (sliceTrade SELL signal update ?m i)"
    by (auto simp add: sellSlice_def Let_def split: if_splits)
  have 1: "evolves this ?this1" by (rule setHoldings_evolves [OF wf a])
  have 2: "evolves ?this1 ?this2" by (rule setCash_evolves)
  have 3: "evolves ?this2 (pushTrade ?this2 (sliceTrade SELL signal update ?m i))"
    by (rule pushTrade_evolves)
  show ?thesis unfolding e by (rule evolves_trans [OF evolves_trans [OF 1 2] 3])
qed

lemma buyLoop_evolves:
  assumes "engine_wf this" and "asset \<in> snd ` set (assetEntries this)"
  shows "engine_wf (buyLoop signal update asset sl i this) \<and>
         evolves this (buyLoop signal update asset sl i this)"
  using assms
proof (induction signal update asset sl i this rule: buyLoop.induct)
  case (1 signal update asset sl i this)
  show ?case
  proof (cases "i < 5 \<and> \<not> getCash this < sl")
    case False
    then have "buyLoop signal update asset sl i this = this"
      by (subst buyLoop.simps) auto
    then show ?thesis using "1.prems" by (simp add: evolves_refl)
  next
    case True
    then have lt: "i < 5" and ng: "\<not> getCash this < sl" by auto
    let ?this' = "buySlice signal update asset sl i this"
    have e: "buyLoop signal update asset sl i this = buyLoop signal update asset sl (i + 1) ?this'"
      using True by (subst buyLoop.simps) simp
    have wf': "engine_wf ?this'" by (rule buySlice_preserves(1) [OF "1.prems"(1)])
    have ev: "evolves this ?this'" by (rule buySlice_evolves [OF "1.prems"])
    then have a': "asset \<in> snd ` set (assetEntries ?this')"
      using "1.prems"(2) by (simp add: evolves_def)
    from "1.IH" [OF lt ng wf' a'] ev show ?thesis
      unfolding e by (blast intro: evolves_trans)
  qed
qed

lemma sellLoop_evolves:
  assumes "engine_wf this" and "asset \<in> snd ` set (assetEntries this)"
  shows "engine_wf (sellLoop signal update asset q i this) \<and>
         evolves this (sellLoop signal update asset q i this)"
  using assms
proof (induction signal update asset q i this rule: sellLoop.induct)
  case (1 signal update asset q i this)
  show ?case
  proof (cases "i < 5")
    case False
    then have "sellLoop signal update asset q i this = this"
      by (subst sellLoop.simps) auto
    then show ?thesis using "1.prems" by (simp add: evolves_refl)
  next
    case lt: True
    let ?this' = "sellSlice signal update asset q i this"
    have e: "sellLoop signal update asset q i this = sellLoop signal update asset q (i + 1) ?this'"
      using lt by (subst sellLoop.simps) simp
    have wf': "engine_wf ?this'" by (rule sellSlice_preserves(1) [OF "1.prems"(1)])
    have ev: "evolves this ?this'" by (rule sellSlice_evolves [OF "1.prems"])
    then have a': "asset \<in> snd ` set (assetEntries ?this')"
      using "1.prems"(2) by (simp add: evolves_def)
    from "1.IH" [OF lt wf' a'] ev show ?thesis
      unfolding e by (blast intro: evolves_trans)
  qed
qed

lemma lookupAsset_in_entries:
  "lookupAsset this s = Some a \<Longrightarrow> a \<in> snd ` set (assetEntries this)"
  by (force simp add: lookupAsset_def dest: map_of_SomeD)

lemma executeBuy_evolves:
  assumes "engine_wf this"
  shows "engine_wf (executeBuy this signal update) \<and> evolves this (executeBuy this signal update)"
proof (cases "lookupAsset this (TradeSignal.symbol signal)")
  case None
  then show ?thesis using assms by (simp add: executeBuy_def evolves_refl)
next
  case (Some asset)
  from buyLoop_evolves [OF assms lookupAsset_in_entries [OF Some]] Some show ?thesis
    by (simp add: executeBuy_def Let_def)
qed

lemma executeSell_evolves:
  assumes "engine_wf this"
  shows "engine_wf (executeSell this signal update) \<and> evolves this (executeSell this signal update)"
proof (cases "lookupAsset this (TradeSignal.symbol signal)")
  case None
  then show ?thesis using assms by (simp add: executeSell_def evolves_refl)
next
  case (Some asset)
  from sellLoop_evolves [OF assms lookupAsset_in_entries [OF Some]] Some assms show ?thesis
    by (simp add: executeSell_def Let_def evolves_refl)
qed


lemma processUpdate_evolves:
  assumes wf: "engine_wf this" and inv: "strategy_inv (strategy this)"
  shows "\<exists>this'. processUpdate this update = Inr this' \<and> engine_wf this' \<and>
           evolves this this' \<and> strategy_inv (strategy this')"
proof -
  from onUpdate_total [OF inv, of update] obtain sg st' where
    o: "onUpdate (strategy this) update = Inr (sg, st')" and inv': "strategy_inv st'"
    by blast
  let ?this1 = "this\<lparr>strategy := st'\<rparr>"
  have wf1: "engine_wf ?this1" using wf by (simp add: strategy_update_prims)
  have ev1: "evolves this ?this1" by (rule strategy_update_evolves)
  show ?thesis
  proof (cases sg)
    case None
    then have "processUpdate this update = Inr ?this1" using o by (simp add: processUpdate_def)
    with wf1 ev1 inv' show ?thesis by simp
  next
    case (Some s)
    show ?thesis
    proof (cases "action s = BUY")
      case True
      then have e: "processUpdate this update = Inr (executeBuy ?this1 s update)"
        using o Some by (simp add: processUpdate_def)
      from executeBuy_evolves [OF wf1, of s update] ev1
      have "engine_wf (executeBuy ?this1 s update)" "evolves this (executeBuy ?this1 s update)"
        by (blast intro: evolves_trans)+
      moreover have "strategy_inv (strategy (executeBuy ?this1 s update))"
        using inv' by (simp add: executeBuy_strategy_same)
      ultimately show ?thesis using e by simp
    next
      case False
      then have e: "processUpdate this update = Inr (executeSell ?this1 s update)"
        using o Some by (simp add: processUpdate_def)
      from executeSell_evolves [OF wf1, of s update] ev1
      have "engine_wf (executeSell ?this1 s update)" "evolves this (executeSell ?this1 s update)"
        by (blast intro: evolves_trans)+
      moreover have "strategy_inv (strategy (executeSell ?this1 s update))"
        using inv' by (simp add: executeSell_strategy_same)
      ultimately show ?thesis using e by simp
    qed
  qed
qed

lemma processUpdates_evolves:
  assumes "engine_wf this" and "strategy_inv (strategy this)"
  shows "\<exists>this'. processUpdates this priceData = Inr this' \<and> engine_wf this' \<and>
           evolves this this' \<and> strategy_inv (strategy this') \<and>
           (\<exists>ts. trades this' = trades this @ ts \<and>
              (\<forall>t\<in>set ts. \<exists>u\<in>set priceData. Trade.price t = PriceUpdate.price u))"
  using assms
proof (induction priceData arbitrary: this)
  case Nil
  then show ?case by (simp add: evolves_refl)
next
  case (Cons u us)
  from processUpdate_evolves [OF Cons.prems, of u] obtain this1 where
    1: "processUpdate this u = Inr this1" "engine_wf this1" "evolves this this1"
       "strategy_inv (strategy this1)"
    by blast
  from processUpdate_trades [OF 1(1)] obtain ts1 where
    t1: "trades this1 = trades this @ ts1" "\<forall>t\<in>set ts1. Trade.price t = PriceUpdate.price u"
    by blast
  from Cons.IH [OF 1(2) 1(4)] obtain this2 ts2 where
    2: "processUpdates this1 us = Inr this2" "engine_wf this2" "evolves this1 this2"
       "strategy_inv (strategy this2)"
    and t2: "trades this2 = trades this1 @ ts2"
       "\<forall>t\<in>set ts2. \<exists>u\<in>set us. Trade.price t = PriceUpdate.price u"
    by blast
  have a: "processUpdates this (u # us) = Inr this2" using 1(1) 2(1) by simp
  have b: "evolves this this2" by (rule evolves_trans [OF 1(3) 2(3)])
  have c: "trades this2 = trades this @ (ts1 @ ts2)" using t1(1) t2(1) by simp
  have d: "\<forall>t\<in>set (ts1 @ ts2). \<exists>v\<in>set (u # us). Trade.price t = PriceUpdate.price v"
    using t1(2) t2(2) by auto
  from a 2(2) b 2(4) c d show ?case by blast
qed


lemma engine_wf_ex:
  assumes "engine_wf this"
  shows "\<exists>pf es. deref (store this) (portfolio this) = Some (PortfolioObj pf) \<and>
           deref (store this) (assets pf) = Some (RecordObj es) \<and>
           assetEntries this = es \<and>
           (\<forall>k a. (k, a) \<in> set es \<longrightarrow> (\<exists>v. getAsset this a = Some v))"
  using assms by (elim engine_wfD) blast



lemma run_effect:
  assumes wf: "engine_wf this" and inv: "strategy_inv (strategy this)"
  shows "\<exists>res this3 pf.
           run this priceData = Inr (res, this3\<lparr>store := store this3 @ [PortfolioObj pf]\<rparr>) \<and>
           engine_wf this3 \<and> evolves this this3 \<and>
           deref (store this3) (portfolio this3) = Some (PortfolioObj pf) \<and>
           finalPortfolio res = length (store this3) \<and>
           BacktestResult.trades res = trades this3 \<and>
           (\<exists>ts. trades this3 = trades this @ ts \<and>
              (\<forall>t\<in>set ts. \<exists>u\<in>set priceData. Trade.price t = PriceUpdate.price u))"
proof -
  let ?this1 = "this\<lparr>strategy := initialize (strategy this) runConfig\<rparr>"
  have wf1: "engine_wf ?this1" using wf by (simp add: strategy_update_prims)
  have inv1: "strategy_inv (strategy ?this1)"
    using inv by (simp add: strategy_inv_def initialize_def)
  have ev1: "evolves this ?this1" by (rule strategy_update_evolves)
  from processUpdates_evolves [OF wf1 inv1, of priceData] obtain this2 ts where
    2: "processUpdates ?this1 priceData = Inr this2" "engine_wf this2" "evolves ?this1 this2"
    and t: "trades this2 = trades ?this1 @ ts"
       "\<forall>t\<in>set ts. \<exists>u\<in>set priceData. Trade.price t = PriceUpdate.price u"
    by blast
  let ?this3 = "this2\<lparr>strategy := onEnd (strategy this2)\<rparr>"
  have wf3: "engine_wf ?this3" using 2(2) by (simp add: strategy_update_prims)
  have ev3: "evolves this ?this3"
    by (rule evolves_trans [OF evolves_trans [OF ev1 2(3)] strategy_update_evolves])
  from engine_wf_ex [OF wf3] obtain pf where
    pf: "deref (store ?this3) (portfolio ?this3) = Some (PortfolioObj pf)"
    by blast
  have sp: "spreadPortfolio ?this3 =
      (?this3\<lparr>store := store ?this3 @ [PortfolioObj pf]\<rparr>, length (store ?this3))"
    using pf by (simp add: spreadPortfolio_def alloc_def)
  have r: "\<exists>res. run this priceData = Inr (res, ?this3\<lparr>store := store ?this3 @ [PortfolioObj pf]\<rparr>) \<and>
       finalPortfolio res = length (store ?this3) \<and> BacktestResult.trades res = trades ?this3"
    using 2(1) by (simp add: run_def Let_def sp del: processUpdates.simps)
  have tr: "trades ?this3 = trades this @ ts" using t(1) by simp
  from r wf3 ev3 pf tr t(2) show ?thesis by blast
qed


lemma parseAssets_eq:
  "parseAssets h vs =
     (h @ map (\<lambda>(k, v). AssetObj v) vs, zip (map fst vs) [length h..<length h + length vs])"
proof (induction vs arbitrary: h)
  case Nil
  show ?case by simp
next
  case (Cons e vs)
  obtain k v where e: "e = (k, v)" by (cases e)
  have u: "[length h..<length h + length (e # vs)] =
           length h # [length (h @ [AssetObj v])..<length (h @ [AssetObj v]) + length vs]"
    by (simp add: upt_rec)
  show ?case
    unfolding u by (simp add: e alloc_def Cons.IH)
qed

lemma stringifyAssets_fresh:
  "stringifyAssets (h @ map (\<lambda>(k, v). AssetObj v) vs @ rest)
     (zip (map fst vs) [length h..<length h + length vs]) = Some vs"
proof (induction vs arbitrary: h)
  case Nil
  show ?case by simp
next
  case (Cons e vs)
  obtain k v where e: "e = (k, v)" by (cases e)
  have u: "[length h..<length h + length (e # vs)] =
           length h # [length (h @ [AssetObj v])..<length (h @ [AssetObj v]) + length vs]"
    by (simp add: upt_rec)
  have d: "deref (h @ map (\<lambda>(k, v). AssetObj v) (e # vs) @ rest) (length h) = Some (AssetObj v)"
    by (simp add: deref_def e nth_append)
  have a: "h @ map (\<lambda>(k, v). AssetObj v) (e # vs) @ rest =
           (h @ [AssetObj v]) @ map (\<lambda>(k, v). AssetObj v) vs @ rest"
    by (simp add: e)
  have "stringifyAssets (h @ map (\<lambda>(k, v). AssetObj v) (e # vs) @ rest)
          (zip (map fst vs) [length (h @ [AssetObj v])..<length (h @ [AssetObj v]) + length vs]) = Some vs"
    unfolding a by (rule Cons.IH)
  then show ?case
    unfolding u using d by (simp add: e)
qed

lemma stringifyAssets_less:
  "stringifyAssets h es = Some vs \<Longrightarrow> (k, a) \<in> set es \<Longrightarrow> a < length h"
proof (induction es arbitrary: vs)
  case Nil
  then show ?case by simp
next
  case (Cons e es)
  obtain k' a' where e: "e = (k', a')" by (cases e)
  from Cons.prems(1) obtain v ws where
    d: "deref h a' = Some (AssetObj v)" and r: "stringifyAssets h es = Some ws"
    by (auto simp add: e split: option.splits obj.splits)
  from Cons.prems(2) have "(k, a) = (k', a') \<or> (k, a) \<in> set es" by (simp add: e)
  then show ?case
  proof
    assume "(k, a) = (k', a')"
    then show ?thesis using d by (auto dest: deref_Some_less)
  next
    assume "(k, a) \<in> set es"
    then show ?thesis using Cons.IH [OF r] by simp
  qed
qed

lemma stringifyAssets_cong:
  "(\<forall>(k, a)\<in>set es. deref h' a = deref h a) \<Longrightarrow> stringifyAssets h' es = stringifyAssets h es"
  by (induction es) (auto split: option.splits obj.splits)

lemma stringify_frame:
  assumes s: "stringify h p = Some j" and f: "\<forall>a<length h. deref h' a = deref h a"
  shows "stringify h' p = Some j"
proof -
  from s obtain pf where pf: "deref h p = Some (PortfolioObj pf)"
    by (auto simp add: stringify_def split: option.splits obj.splits)
  with s obtain es where es: "deref h (assets pf) = Some (RecordObj es)"
    by (auto simp add: stringify_def split: option.splits obj.splits)
  from s pf es obtain vs where vs: "stringifyAssets h es = Some vs"
    by (auto simp add: stringify_def)
  have pf': "deref h' p = Some (PortfolioObj pf)" using pf f by (auto dest: deref_Some_less)
  have es': "deref h' (assets pf) = Some (RecordObj es)" using es f by (auto dest: deref_Some_less)
  have "\<forall>(k, a)\<in>set es. deref h' a = deref h a"
    using stringifyAssets_less [OF vs] f by auto
  then have "stringifyAssets h' es = stringifyAssets h es" by (rule stringifyAssets_cong)
  then show ?thesis using s pf es pf' es' by (simp add: stringify_def)
qed


lemma constructor_effect:
  assumes "newBacktestingEngine h strat p limits = Some eng"
  shows "\<exists>j. stringify h p = Some j \<and>
           eng = \<lparr>store = h @ map (\<lambda>(k, v). AssetObj v) (json_assets j) @
                    [RecordObj (zip (map fst (json_assets j))
                                 [length h..<length h + length (json_assets j)]),
                     PortfolioObj \<lparr>cash = json_cash j,
                                   assets = length h + length (json_assets j)\<rparr>],
                  strategy = strat,
                  portfolio = length h + length (json_assets j) + 1,
                  trades = [], riskLimits = limits\<rparr>"
proof -
  from assms obtain j where j: "stringify h p = Some j"
    by (auto simp add: newBacktestingEngine_def split: option.splits)
  from assms j show ?thesis
    by (auto simp add: newBacktestingEngine_def parse_def parseAssets_eq alloc_def)
qed

lemma constructor_props:
  assumes "newBacktestingEngine h strat p limits = Some eng"
  shows "engine_wf eng"
    and "\<forall>a\<in>engineRefs eng. length h \<le> a"
    and "\<forall>a<length h. deref (store eng) a = deref h a"
    and "stringify (store eng) (portfolio eng) = stringify h p"
    and "strategy eng = strat" and "trades eng = []" and "riskLimits eng = limits"
    and "stringify h p \<noteq> None"
    and "length h \<le> length (store eng)"
proof -
  from constructor_effect [OF assms] obtain j where j: "stringify h p = Some j"
    and e: "eng = \<lparr>store = h @ map (\<lambda>(k, v). AssetObj v) (json_assets j) @
                    [RecordObj (zip (map fst (json_assets j))
                                 [length h..<length h + length (json_assets j)]),
                     PortfolioObj \<lparr>cash = json_cash j,
                                   assets = length h + length (json_assets j)\<rparr>],
                  strategy = strat,
                  portfolio = length h + length (json_assets j) + 1,
                  trades = [], riskLimits = limits\<rparr>"
    by blast
  let ?vs = "json_assets j"
  let ?n = "length ?vs"
  let ?es = "zip (map fst ?vs) [length h..<length h + ?n]"
  let ?rest = "[RecordObj ?es, PortfolioObj \<lparr>cash = json_cash j, assets = length h + ?n\<rparr>]"
  have st: "store eng = h @ map (\<lambda>(k, v). AssetObj v) ?vs @ ?rest" by (simp add: e)
  have po: "portfolio eng = length h + ?n + 1" by (simp add: e)
  have dp: "deref (store eng) (portfolio eng) =
              Some (PortfolioObj \<lparr>cash = json_cash j, assets = length h + ?n\<rparr>)"
    unfolding st po by (simp add: deref_def nth_append)
  have dr: "deref (store eng) (length h + ?n) = Some (RecordObj ?es)"
    unfolding st by (simp add: deref_def nth_append)
  have sa: "stringifyAssets (store eng) ?es = Some ?vs"
    unfolding st by (rule stringifyAssets_fresh)
  have ae: "assetEntries eng = ?es" using dp dr by (simp add: assetEntries_def)
  have ga: "getAsset eng a \<noteq> None" if "(k, a) \<in> set ?es" for k a
  proof -
    from that have "a \<in> set [length h..<length h + ?n]" by (rule set_zip_rightD)
    then have "length h \<le> a" "a < length h + ?n" by auto
    then have lt: "a - length h < ?n" and nl: "\<not> a < length h" by linarith+
    from \<open>a < length h + ?n\<close> have "deref (store eng) a = Some ((h @ map (\<lambda>(k, v). AssetObj v) ?vs @ ?rest) ! a)"
      unfolding st by (simp add: deref_def)
    moreover have "(h @ map (\<lambda>(k, v). AssetObj v) ?vs @ ?rest) ! a =
        map (\<lambda>(k, v). AssetObj v) ?vs ! (a - length h)"
      using lt nl by (simp add: nth_append)
    moreover have "map (\<lambda>(k, v). AssetObj v) ?vs ! (a - length h) = AssetObj (snd (?vs ! (a - length h)))"
      using lt by (simp add: case_prod_unfold)
    ultimately show ?thesis by (simp add: getAsset_def)
  qed
  show "engine_wf eng"
    using dp dr ga by (auto simp add: engine_wf_def list_all_iff)
  have "snd ` set ?es \<subseteq> set [length h..<length h + ?n]"
    by (auto dest: set_zip_rightD)
  then show "\<forall>a\<in>engineRefs eng. length h \<le> a"
    using dp ae po by (auto simp add: engineRefs_def)
  show "\<forall>a<length h. deref (store eng) a = deref h a"
    unfolding st by (simp add: deref_def nth_append)
  show "stringify (store eng) (portfolio eng) = stringify h p"
    using dp dr sa j by (simp add: stringify_def)
  show "strategy eng = strat" "trades eng = []" "riskLimits eng = limits"
    by (simp_all add: e)
  show "stringify h p \<noteq> None" using j by simp
  show "length h \<le> length (store eng)" unfolding st by simp
qed


lemma writable_subset_engineRefs:
  assumes "engine_wf this"
  shows "writable this \<subseteq> engineRefs this"
proof -
  from engine_wf_ex [OF assms] obtain pf where
    "deref (store this) (portfolio this) = Some (PortfolioObj pf)" by blast
  then have "engineRefs this = {portfolio this, assets pf} \<union> snd ` set (assetEntries this)"
    by (simp add: engineRefs_def)
  then show ?thesis by (auto simp add: writable_def)
qed

lemma newDropRiseStrategy_inv: "strategy_inv newDropRiseStrategy"
  by (simp add: strategy_inv_def newDropRiseStrategy_def)

lemma constructor_e2e:
  "newBacktestingEngine caller_heap newDropRiseStrategy 2 ex_limits = Some eng_e2e"
  by (simp add: newBacktestingEngine_def stringify_def parse_def alloc_def deref_def
      caller_heap_def eng_e2e_def)

text \<open>
  Claim C8. When the constructor builds an engine from the portfolio at reference \<open>p\<close>
  of the store \<open>h\<close>: \<open>p\<close> refers to a well-typed portfolio; the engine's portfolio
  reads the same value as the caller's (a value copy); every object reachable from the
  engine's portfolio is new, so none is an object of the caller (no aliasing); and for
  every update sequence \<open>run\<close> returns a result, after which every object of \<open>h\<close> is
  as it was, the caller's portfolio reads the same value as before (cash, and every
  asset's symbol, price and holdings), and the returned \<open>finalPortfolio\<close> is a new object
  too.
\<close>

theorem run_leaves_caller_portfolio:
  assumes c: "newBacktestingEngine h strat p limits = Some eng" and inv: "strategy_inv strat"
  shows "stringify h p \<noteq> None \<and>
         stringify (store eng) (portfolio eng) = stringify h p \<and>
         (\<forall>a\<in>engineRefs eng. length h \<le> a) \<and>
         (\<forall>a<length h. deref (store eng) a = deref h a) \<and>
         (\<exists>res eng'. run eng priceData = Inr (res, eng') \<and>
            (\<forall>a<length h. deref (store eng') a = deref h a) \<and>
            stringify (store eng') p = stringify h p \<and>
            length h \<le> finalPortfolio res)"
proof -
  note cp = constructor_props [OF c]
  from cp(8) obtain j where j: "stringify h p = Some j" by auto
  have inv': "strategy_inv (strategy eng)" using inv cp(5) by simp
  from run_effect [OF cp(1) inv', of priceData] obtain res this3 pf where
    r: "run eng priceData = Inr (res, this3\<lparr>store := store this3 @ [PortfolioObj pf]\<rparr>)"
    and ev: "evolves eng this3"
    and fp: "finalPortfolio res = length (store this3)"
    by blast
  let ?eng' = "this3\<lparr>store := store this3 @ [PortfolioObj pf]\<rparr>"
  from ev have len: "length (store this3) = length (store eng)"
    and fr: "\<forall>a. a \<notin> writable eng \<longrightarrow> deref (store this3) a = deref (store eng) a"
    by (simp_all add: evolves_def)
  have f: "deref (store ?eng') a = deref h a" if "a < length h" for a
  proof -
    have "a \<notin> writable eng"
    proof
      assume "a \<in> writable eng"
      with writable_subset_engineRefs [OF cp(1)] have "a \<in> engineRefs eng" by blast
      with cp(2) have "length h \<le> a" by blast
      with that show False by simp
    qed
    with fr have "deref (store this3) a = deref (store eng) a" by simp
    moreover have "a < length (store this3)" using that cp(9) len by simp
    ultimately show ?thesis using cp(3) that by (simp add: deref_append)
  qed
  then have f': "\<forall>a<length h. deref (store ?eng') a = deref h a" by simp
  have s: "stringify (store ?eng') p = stringify h p"
    using stringify_frame [OF j f'] j by simp
  have l: "length h \<le> finalPortfolio res" using fp len cp(9) by simp
  from cp(8) cp(4) cp(2) cp(3) r f' s l show ?thesis by blast
qed

theorem run_leaves_caller_portfolio_witness:
  "newBacktestingEngine caller_heap newDropRiseStrategy 2 ex_limits = Some eng_e2e \<and>
   strategy_inv newDropRiseStrategy \<and>
   (\<exists>res eng'. run eng_e2e e2e_updates = Inr (res, eng') \<and>
      (\<forall>a<length caller_heap. deref (store eng') a = deref caller_heap a) \<and>
      stringify (store eng') 2 = stringify caller_heap 2)"
  using run_leaves_caller_portfolio [OF constructor_e2e newDropRiseStrategy_inv, of e2e_updates]
    constructor_e2e newDropRiseStrategy_inv
  by blast









end
